theory Spec2Isabelle
  imports Main
begin

section \<open>The host: JavaScript values, elements, the document\<close>

text \<open>
  Waft.js is one class, \<open>WaftJs\<close>, running inside a browser page. The class is embedded
  function by function; the browser around it (the element objects, the document tree, the
  listener tables, the console and the JavaScript engine behind \<open>Function(...)\<close>) is made an
  explicit state \<open>dom\<close> and an explicit parameter \<open>js\<close>.

  An element is a handle (object identity); its properties live in a store.
\<close>

type_synonym elm = nat

datatype event = Event (ev_type: string) (ev_target: elm) (submitter: "elm option")

datatype jsval =
    Undefined
  | Null
  | Bool bool
  | Num int
  | Str string
  | Elem elm
  | Ev event

text \<open>Whatever a snippet, or the code around it, can throw.\<close>

datatype exn = TypeError | SyntaxError | ReferenceError | Thrown jsval

text \<open>JavaScript's \<open>ToBoolean\<close>, used by every \<open>if (x)\<close> of the source.\<close>

fun truthy :: "jsval \<Rightarrow> bool" where
  "truthy Undefined = False"
| "truthy Null = False"
| "truthy (Bool b) = b"
| "truthy (Num n) = (n \<noteq> 0)"
| "truthy (Str s) = (s \<noteq> [])"
| "truthy (Elem e) = True"
| "truthy (Ev e) = True"

text \<open>JavaScript's \<open>ToString\<close> on the values above (numbers are the integers).\<close>

fun digits :: "nat \<Rightarrow> string" where
  "digits n =
     (if n < 10 then [''0123456789'' ! n]
      else digits (n div 10) @ [''0123456789'' ! (n mod 10)])"

declare digits.simps [simp del]

fun ToString :: "jsval \<Rightarrow> string" where
  "ToString Undefined = ''undefined''"
| "ToString Null = ''null''"
| "ToString (Bool b) = (if b then ''true'' else ''false'')"
| "ToString (Num n) = (if n < 0 then CHR ''-'' # digits (nat (- n)) else digits (nat n))"
| "ToString (Str s) = s"
| "ToString (Elem e) = ''[object HTMLElement]''"
| "ToString (Ev e) = ''[object Event]''"

text \<open>
  The conversions the DOM applies when a script assigns to a string property:
  \<open>textContent\<close> is a nullable string (null and undefined clear it), \<open>value\<close> and
  \<open>innerHTML\<close> turn null into the empty string and stringify everything else.
\<close>

fun nullable_DOMString :: "jsval \<Rightarrow> string" where
  "nullable_DOMString Undefined = []"
| "nullable_DOMString Null = []"
| "nullable_DOMString v = ToString v"

fun null_to_empty_DOMString :: "jsval \<Rightarrow> string" where
  "null_to_empty_DOMString Null = []"
| "null_to_empty_DOMString v = ToString v"

text \<open>
  The properties of an element that the source reads or writes, in the store. \<open>kind\<close> says
  what sort of element it is: a form, a form control (button, input, select, textarea and
  the like, whose property \<open>form\<close> the browser keeps), or any other element (div, span, ...,
  which have no such property). \<open>mOriginalDisplay\<close> is the expando property of the \<open>w-show\<close>
  handler, \<open>None\<close> while it has never been assigned.
\<close>

datatype kind = FormElement | FormControl | OtherElement

record element =
  attributes :: "string \<rightharpoonup> string"
  kind :: kind
  style_display :: string
  mOriginalDisplay :: "string option"
  input_value :: string

text \<open>
  The two closures of \<open>registerEventHandler\<close>, as data:
  \<open>(ev) => { if (ev.submitter == elm) { this.handleEvent('submit', elm, code, ev) }}\<close> and
  \<open>(ev) => { this.handleEvent(eventName, elm, code, ev) }\<close>.
\<close>

datatype listener =
    SubmitListener elm string
  | PlainListener string elm string

text \<open>
  A tree of element handles and text nodes, and what the HTML parser makes of a text before
  the elements in it have handles: the same tree with the new elements' properties in
  place of handles.
\<close>

datatype node = is_Node: Node elm "node list" | Text string

datatype markup = MElem element "markup list" | MText string

text \<open>
  The page: the tree of the document; the trees that have been taken out of the document
  (their elements still exist); the element store; the next unused handle; the browser's
  fragment parser (for a context element and a text) and serializer; the listeners added so
  far (target, event type, listener; in the order they were added); what \<open>console.error\<close>
  printed; and the errors that reached the browser's unhandled-error channel.
\<close>

record dom =
  document :: "node list"
  detached :: "node list"
  elements :: "elm \<Rightarrow> element"
  fresh :: elm
  parser :: "elm \<Rightarrow> string \<Rightarrow> markup list"
  serializer :: "markup list \<Rightarrow> string"
  listeners :: "(elm \<times> string \<times> listener) list"
  console :: "string list"
  unhandled :: "exn list"

definition modify :: "elm \<Rightarrow> (element \<Rightarrow> element) \<Rightarrow> dom \<Rightarrow> dom" where
  "modify elm f d = d\<lparr>elements := (elements d)(elm := f (elements d elm))\<rparr>"

section \<open>The tree\<close>

text \<open>
  Document order is the preorder of the element tree. An element is looked up at its first
  place in the trees of the page, the document first.
\<close>

primrec preorder :: "node \<Rightarrow> elm list" where
  "preorder (Node e kids) = e # concat (map preorder kids)"
| "preorder (Text s) = []"

primrec subtrees_at :: "elm \<Rightarrow> node \<Rightarrow> node list" where
  "subtrees_at x (Node e kids) =
     (if e = x then [Node e kids] else concat (map (subtrees_at x) kids))"
| "subtrees_at x (Text s) = []"

text \<open>The ancestors of the places of an element in a tree, outermost first.\<close>

primrec paths_to :: "elm \<Rightarrow> node \<Rightarrow> elm list list" where
  "paths_to x (Node e kids) =
     (if e = x then [[]] else map ((#) e) (concat (map (paths_to x) kids)))"
| "paths_to x (Text s) = []"

definition document_order :: "dom \<Rightarrow> elm list" where
  "document_order d = concat (map preorder (document d))"

definition all_elements :: "dom \<Rightarrow> elm list" where
  "all_elements d = concat (map preorder (document d @ detached d))"

definition childNodes :: "dom \<Rightarrow> elm \<Rightarrow> node list" where
  "childNodes d x =
     (case concat (map (subtrees_at x) (document d @ detached d)) of
        Node e kids # _ \<Rightarrow> kids
      | _ \<Rightarrow> [])"

definition ancestors :: "dom \<Rightarrow> elm \<Rightarrow> elm list" where
  "ancestors d x =
     (case concat (map (paths_to x) (document d @ detached d)) of
        [] \<Rightarrow> []
      | path # _ \<Rightarrow> path)"

text \<open>The descendants of an element, itself excluded, in document order.\<close>

definition descendants :: "dom \<Rightarrow> elm \<Rightarrow> elm list" where
  "descendants d x = concat (map preorder (childNodes d x))"

text \<open>
  The getter \<open>textContent\<close>: the texts below the element, in order. The getter
  \<open>innerHTML\<close>: the serialization of what is below the element.
\<close>

primrec text_of :: "node \<Rightarrow> string" where
  "text_of (Node e kids) = concat (map text_of kids)"
| "text_of (Text s) = s"

primrec shape :: "(elm \<Rightarrow> element) \<Rightarrow> node \<Rightarrow> markup" where
  "shape store (Node e kids) = MElem (store e) (map (shape store) kids)"
| "shape store (Text s) = MText s"

definition textContent :: "dom \<Rightarrow> elm \<Rightarrow> string" where
  "textContent d x = concat (map text_of (childNodes d x))"

definition innerHTML :: "dom \<Rightarrow> elm \<Rightarrow> string" where
  "innerHTML d x = serializer d (map (shape (elements d)) (childNodes d x))"

text \<open>
  Replacing the children of an element, which is what the setters of \<open>textContent\<close> and
  \<open>innerHTML\<close> do: the new children take the place of the old ones, and the old element
  children, with all below them, are out of the document from then on.
\<close>

primrec replace_in :: "elm \<Rightarrow> node list \<Rightarrow> node \<Rightarrow> node" where
  "replace_in x new (Node e kids) =
     (if e = x then Node e new else Node e (map (replace_in x new) kids))"
| "replace_in x new (Text s) = Text s"

definition set_children :: "elm \<Rightarrow> node list \<Rightarrow> dom \<Rightarrow> dom" where
  "set_children x new d =
     d\<lparr>document := map (replace_in x new) (document d),
       detached := map (replace_in x new) (detached d) @ filter is_Node (childNodes d x)\<rparr>"

text \<open>
  Giving handles to the elements of parsed markup: each new element gets the next unused
  handle and its properties go into the store.
\<close>

primrec thread :: "('s \<Rightarrow> 'a \<times> 's) list \<Rightarrow> 's \<Rightarrow> 'a list \<times> 's" where
  "thread [] s = ([], s)"
| "thread (f # fs) s =
     (case f s of (a, s') \<Rightarrow> (case thread fs s' of (as, s'') \<Rightarrow> (a # as, s'')))"

primrec adopt :: "markup \<Rightarrow> elm \<times> (elm \<Rightarrow> element) \<Rightarrow> node \<times> (elm \<times> (elm \<Rightarrow> element))" where
  "adopt (MElem properties ms) =
     (\<lambda>(n, store).
        case thread (map adopt ms) (Suc n, store(n := properties)) of
          (kids, s') \<Rightarrow> (Node n kids, s'))"
| "adopt (MText s) = (\<lambda>s'. (Text s, s'))"

definition set_markup :: "elm \<Rightarrow> markup list \<Rightarrow> dom \<Rightarrow> dom" where
  "set_markup x ms d =
     (case thread (map adopt ms) (fresh d, elements d) of
        (new, (n, store)) \<Rightarrow> set_children x new (d\<lparr>elements := store, fresh := n\<rparr>))"

text \<open>
  The host's \<open>parent.appendChild(child)\<close>, for a parent in the document: the subtree
  becomes the last child of the parent.
\<close>

primrec appendChild_in :: "elm \<Rightarrow> node \<Rightarrow> node \<Rightarrow> node" where
  "appendChild_in parent child (Node e kids) =
     (if e = parent then Node e (kids @ [child])
      else Node e (map (appendChild_in parent child) kids))"
| "appendChild_in parent child (Text s) = Text s"

definition appendChild :: "elm \<Rightarrow> node \<Rightarrow> dom \<Rightarrow> dom" where
  "appendChild parent child d = d\<lparr>document := map (appendChild_in parent child) (document d)\<rparr>"

text \<open>
  The property \<open>elm.form\<close>. Only a form control has it. A control in the document whose
  \<open>form\<close> attribute names an id belongs to the first element of the document with that id,
  if that is a form, and to no form otherwise; any other control belongs to its nearest
  ancestor that is a form, if there is one. Where there is no form the browser gives null,
  and for an element that is not a control undefined: both are \<open>None\<close> here.
\<close>

definition form_property :: "dom \<Rightarrow> elm \<Rightarrow> elm option" where
  "form_property d x =
     (if kind (elements d x) \<noteq> FormControl then None
      else
        (case (if x \<in> set (document_order d) then attributes (elements d x) ''form'' else None) of
           Some i \<Rightarrow>
             (case filter (\<lambda>e. attributes (elements d e) ''id'' = Some i) (document_order d) of
                [] \<Rightarrow> None
              | e # _ \<Rightarrow> if kind (elements d e) = FormElement then Some e else None)
         | None \<Rightarrow>
             (case filter (\<lambda>a. kind (elements d a) = FormElement) (rev (ancestors d x)) of
                [] \<Rightarrow> None
              | f # _ \<Rightarrow> Some f)))"

section \<open>The directive table\<close>

text \<open>
  The handlers. \<open>elm.value = v\<close> stores the string of \<open>v\<close>; \<open>elm.textContent = v\<close> replaces
  the children of the element by one text node, or by nothing when the string is empty;
  \<open>elm.innerHTML = v\<close> replaces them by what the parser makes of the string.
\<close>

definition w_show :: "elm \<Rightarrow> jsval \<Rightarrow> dom \<Rightarrow> dom" where
  "w_show elm evaluationResult d =
     (if truthy evaluationResult then
        (case mOriginalDisplay (elements d elm) of
           Some m \<Rightarrow>
             (if m \<noteq> [] then modify elm (\<lambda>el. el\<lparr>style_display := m\<rparr>) d
              else modify elm (\<lambda>el. el\<lparr>style_display := []\<rparr>) d)
         | None \<Rightarrow> modify elm (\<lambda>el. el\<lparr>style_display := []\<rparr>) d)
      else
        (let d1 = (if style_display (elements d elm) \<noteq> ''none''
                   then modify elm (\<lambda>el. el\<lparr>mOriginalDisplay := Some (style_display el)\<rparr>) d
                   else d)
         in modify elm (\<lambda>el. el\<lparr>style_display := ''none''\<rparr>) d1))"

definition w_value :: "elm \<Rightarrow> jsval \<Rightarrow> dom \<Rightarrow> dom" where
  "w_value elm evaluationResult d =
     modify elm (\<lambda>el. el\<lparr>input_value := null_to_empty_DOMString evaluationResult\<rparr>) d"

definition w_update :: "elm \<Rightarrow> jsval \<Rightarrow> dom \<Rightarrow> dom" where
  "w_update elm evaluationResult d = d"

definition w_text :: "elm \<Rightarrow> jsval \<Rightarrow> dom \<Rightarrow> dom" where
  "w_text elm evaluationResult d =
     set_children elm
       (case nullable_DOMString evaluationResult of [] \<Rightarrow> [] | c # cs \<Rightarrow> [Text (c # cs)]) d"

definition w_html :: "elm \<Rightarrow> jsval \<Rightarrow> dom \<Rightarrow> dom" where
  "w_html elm evaluationResult d =
     set_markup elm (parser d elm (null_to_empty_DOMString evaluationResult)) d"

definition AVAILABLE_EVENT_NAMES :: "string list" where
  "AVAILABLE_EVENT_NAMES = [''blur'', ''click'', ''change'', ''keyup'', ''keydown'', ''submit'']"

definition AVAILABLE_DIRECTIVES :: "(string \<times> (elm \<Rightarrow> jsval \<Rightarrow> dom \<Rightarrow> dom)) list" where
  "AVAILABLE_DIRECTIVES =
     [(''w-show'', w_show), (''w-value'', w_value), (''w-update'', w_update),
      (''w-text'', w_text), (''w-html'', w_html)]"

section \<open>Querying the document\<close>

text \<open>
  The selectors the source builds are lists of attribute-presence tests (\<open>[w-show]\<close>,
  \<open>[w-on\:click]\<close>, \<open>*[w-ref]\<close>), so a selector is the list of the attribute names it
  accepts. \<open>querySelectorAll\<close> gives the matching elements of the document, or the matching
  descendants of an element, in document order.
\<close>

definition matches :: "dom \<Rightarrow> string list \<Rightarrow> elm \<Rightarrow> bool" where
  "matches d selector e = list_ex (\<lambda>a. attributes (elements d e) a \<noteq> None) selector"

datatype scope = Document | Element elm

definition querySelectorAll :: "dom \<Rightarrow> scope \<Rightarrow> string list \<Rightarrow> elm list" where
  "querySelectorAll d scopeElm selector =
     filter (matches d selector)
       (case scopeElm of Document \<Rightarrow> document_order d | Element x \<Rightarrow> descendants d x)"

section \<open>The reference registry\<close>

text \<open>
  \<open>collectRefs\<close>: the loop body \<open>result[`$${refName}`] = elm\<close> over
  \<open>document.querySelectorAll('*[w-ref]')\<close>. Every element the selector returns has the
  attribute (lemma \<open>collectRefs_attribute_present\<close>), so the read of \<open>.value\<close> cannot fail.
\<close>

definition collectRefs_step :: "dom \<Rightarrow> (string \<rightharpoonup> elm) \<Rightarrow> elm \<Rightarrow> (string \<rightharpoonup> elm)" where
  "collectRefs_step d result elm =
     (case attributes (elements d elm) ''w-ref'' of
        None \<Rightarrow> result
      | Some refName \<Rightarrow> result(CHR ''$'' # refName \<mapsto> elm))"

definition collectRefs :: "dom \<Rightarrow> (string \<rightharpoonup> elm)" where
  "collectRefs d = foldl (collectRefs_step d) Map.empty (querySelectorAll d Document [''w-ref''])"

text \<open>The getter \<open>refs\<close>.\<close>

definition refs :: "dom \<Rightarrow> (string \<rightharpoonup> elm)" where
  "refs d = collectRefs d"

section \<open>The evaluator\<close>

text \<open>
  A computation on the page returns \<open>None\<close> when it does not return at all, and otherwise
  the page it leaves together with either what it threw (\<open>Inl\<close>) or its value (\<open>Inr\<close>).
\<close>

type_synonym 'a res = "((exn + 'a) \<times> dom) option"

definition seq :: "(dom \<Rightarrow> 'a res) \<Rightarrow> ('a \<Rightarrow> dom \<Rightarrow> 'b res) \<Rightarrow> dom \<Rightarrow> 'b res" where
  "seq m k d =
     (case m d of
        None \<Rightarrow> None
      | Some (Inl error, d') \<Rightarrow> Some (Inl error, d')
      | Some (Inr a, d') \<Rightarrow> k a d')"

text \<open>
  The JavaScript engine is a parameter. \<open>Function('context', `with (context) { ${code} }`)\<close>
  either throws (a syntax error) or gives a function; calling that function with \<open>this\<close> and a
  context runs the snippet on the page. The context object has the keys \<open>wUpdate\<close> (a closure,
  passed on its own here), one key per reference, and \<open>$ev\<close>.
\<close>

type_synonym wupdate = "jsval list \<Rightarrow> dom \<Rightarrow> unit res"
type_synonym snippet = "wupdate \<Rightarrow> (string \<rightharpoonup> jsval) \<Rightarrow> elm \<Rightarrow> dom \<Rightarrow> jsval res"
type_synonym engine = "string \<Rightarrow> exn + snippet"

text \<open>
  \<open>{ wUpdate: ..., ...this.collectRefs(), $ev: originalEvent }\<close>: the later key wins, so
  \<open>$ev\<close> is the event (or undefined) even when an element is named \<open>ev\<close>.
\<close>

definition context_object :: "dom \<Rightarrow> event option \<Rightarrow> (string \<rightharpoonup> jsval)" where
  "context_object d originalEvent =
     (map_option Elem \<circ> collectRefs d)
       (''$ev'' \<mapsto> (case originalEvent of None \<Rightarrow> Undefined | Some ev \<Rightarrow> Ev ev))"

definition console_error :: "string \<Rightarrow> dom \<Rightarrow> dom" where
  "console_error code d = d\<lparr>console := console d @ [code]\<rparr>"

definition evaluateString ::
  "engine \<Rightarrow> wupdate \<Rightarrow> string \<Rightarrow> elm \<Rightarrow> event option \<Rightarrow> dom \<Rightarrow> jsval res" where
  "evaluateString js wUpdate code contextThis originalEvent d =
     (case js code of
        Inl error \<Rightarrow> Some (Inl error, console_error code d)
      | Inr fn \<Rightarrow>
          (case fn wUpdate (context_object d originalEvent) contextThis d of
             None \<Rightarrow> None
           | Some (Inl error, d') \<Rightarrow> Some (Inl error, console_error code d')
           | Some (Inr v, d') \<Rightarrow> Some (Inr v, d')))"

section \<open>The directive engine\<close>

text \<open>
  \<open>updateElement\<close>: the loop over \<open>Object.entries(this.AVAILABLE_DIRECTIVES)\<close>, which lists
  the entries in the order the object literal declares them.
\<close>

fun updateElement_loop ::
  "engine \<Rightarrow> wupdate \<Rightarrow> elm \<Rightarrow> (string \<times> (elm \<Rightarrow> jsval \<Rightarrow> dom \<Rightarrow> dom)) list \<Rightarrow> dom \<Rightarrow> unit res" where
  "updateElement_loop js wUpdate targetElm [] d = Some (Inr (), d)"
| "updateElement_loop js wUpdate targetElm ((directiveName, directiveHandler) # entries) d =
     (case attributes (elements d targetElm) directiveName of
        None \<Rightarrow> updateElement_loop js wUpdate targetElm entries d
      | Some code \<Rightarrow>
          seq (evaluateString js wUpdate code targetElm None)
            (\<lambda>evaluationResult d'.
               updateElement_loop js wUpdate targetElm entries
                 (directiveHandler targetElm evaluationResult d')) d)"

definition updateElement :: "engine \<Rightarrow> wupdate \<Rightarrow> elm \<Rightarrow> dom \<Rightarrow> unit res" where
  "updateElement js wUpdate targetElm d =
     updateElement_loop js wUpdate targetElm AVAILABLE_DIRECTIVES d"

text \<open>
  \<open>updateElements\<close> receives whatever the snippet passed to \<open>wUpdate\<close>. On a value that is
  not an element, \<open>targetElm.attributes[directiveName]\<close> throws a TypeError in the first
  round of the loop.
\<close>

fun updateElements :: "engine \<Rightarrow> wupdate \<Rightarrow> jsval list \<Rightarrow> dom \<Rightarrow> unit res" where
  "updateElements js wUpdate [] d = Some (Inr (), d)"
| "updateElements js wUpdate (targetElm # targetElms) d =
     seq (case targetElm of
            Elem e \<Rightarrow> updateElement js wUpdate e
          | _ \<Rightarrow> (\<lambda>d. Some (Inl TypeError, d)))
         (\<lambda>_. updateElements js wUpdate targetElms) d"

text \<open>
  The closure \<open>wUpdate: (...targetElms) => { this.updateElements(targetElms); }\<close> that each
  evaluation hands to its snippet calls back into the engine, and the snippets run there get
  the same closure again. \<open>wUpdate_closure js n\<close> is that closure with room for \<open>n\<close> nested
  levels of snippets; below the last level the call does not return.
\<close>

primrec wUpdate_closure :: "engine \<Rightarrow> nat \<Rightarrow> wupdate" where
  "wUpdate_closure js 0 = (\<lambda>targetElms d. None)"
| "wUpdate_closure js (Suc n) = updateElements js (wUpdate_closure js n)"

section \<open>Event binding\<close>

definition addEventListener :: "elm \<Rightarrow> string \<Rightarrow> listener \<Rightarrow> dom \<Rightarrow> dom" where
  "addEventListener target type l d = d\<lparr>listeners := listeners d @ [(target, type, l)]\<rparr>"

text \<open>
  \<open>registerEventHandler\<close>: \<open>elm.form.addEventListener\<close> on an element whose property
  \<open>form\<close> is null or undefined reads a property of null (or undefined), a TypeError, after
  the listeners of the earlier event names have been added.
\<close>

fun registerEventHandler_loop :: "string list \<Rightarrow> elm \<Rightarrow> dom \<Rightarrow> (exn + unit) \<times> dom" where
  "registerEventHandler_loop [] elm d = (Inr (), d)"
| "registerEventHandler_loop (eventName # eventNames) elm d =
     (case attributes (elements d elm) (''w-on:'' @ eventName) of
        None \<Rightarrow> registerEventHandler_loop eventNames elm d
      | Some code \<Rightarrow>
          (if eventName = ''submit'' then
             (case form_property d elm of
                None \<Rightarrow> (Inl TypeError, d)
              | Some f \<Rightarrow>
                  registerEventHandler_loop eventNames elm
                    (addEventListener f ''submit'' (SubmitListener elm code) d))
           else
             registerEventHandler_loop eventNames elm
               (addEventListener elm eventName (PlainListener eventName elm code) d)))"

definition registerEventHandler :: "elm \<Rightarrow> dom \<Rightarrow> (exn + unit) \<times> dom" where
  "registerEventHandler elm d = registerEventHandler_loop AVAILABLE_EVENT_NAMES elm d"

definition handleEvent ::
  "engine \<Rightarrow> wupdate \<Rightarrow> string \<Rightarrow> elm \<Rightarrow> string \<Rightarrow> event \<Rightarrow> dom \<Rightarrow> unit res" where
  "handleEvent js wUpdate eventName targetElm code originalEvent d =
     seq (evaluateString js wUpdate code targetElm (Some originalEvent))
         (\<lambda>_ d'. Some (Inr (), d')) d"

text \<open>Calling a listener with an event: the bodies of the two closures.\<close>

fun call_listener :: "engine \<Rightarrow> wupdate \<Rightarrow> listener \<Rightarrow> event \<Rightarrow> dom \<Rightarrow> unit res" where
  "call_listener js wUpdate (SubmitListener elm code) ev d =
     (if submitter ev = Some elm then handleEvent js wUpdate ''submit'' elm code ev d
      else Some (Inr (), d))"
| "call_listener js wUpdate (PlainListener eventName elm code) ev d =
     handleEvent js wUpdate eventName elm code ev d"

text \<open>
  The browser's side of an event: the listeners added for the event's type on its target run
  in the order they were added; what one of them throws goes to the unhandled-error channel
  and the next one still runs. (Listeners on ancestors, reached by bubbling, are left out.)
\<close>

definition report_unhandled :: "unit res \<Rightarrow> dom option" where
  "report_unhandled r =
     (case r of
        None \<Rightarrow> None
      | Some (Inl error, d') \<Rightarrow> Some (d'\<lparr>unhandled := unhandled d' @ [error]\<rparr>)
      | Some (Inr _, d') \<Rightarrow> Some d')"

fun call_listeners :: "engine \<Rightarrow> wupdate \<Rightarrow> listener list \<Rightarrow> event \<Rightarrow> dom \<Rightarrow> dom option" where
  "call_listeners js wUpdate [] ev d = Some d"
| "call_listeners js wUpdate (l # ls) ev d =
     (case report_unhandled (call_listener js wUpdate l ev d) of
        None \<Rightarrow> None
      | Some d' \<Rightarrow> call_listeners js wUpdate ls ev d')"

definition listeners_for :: "dom \<Rightarrow> elm \<Rightarrow> string \<Rightarrow> listener list" where
  "listeners_for d target type =
     map (\<lambda>(t, ty, l). l) (filter (\<lambda>(t, ty, l). t = target \<and> ty = type) (listeners d))"

definition dispatchEvent :: "engine \<Rightarrow> wupdate \<Rightarrow> event \<Rightarrow> dom \<Rightarrow> dom option" where
  "dispatchEvent js wUpdate ev d =
     call_listeners js wUpdate (listeners_for d (ev_target ev) (ev_type ev)) ev d"

section \<open>The scanner\<close>

text \<open>
  \<open>[...eventSelectors, directiveSelectors].join(', ')\<close> leaves the second array unspread,
  so its own string form, the five directive selectors joined by commas, ends the text: the
  selector list still holds all eleven attribute tests. \<open>scan\<close> is the list that
  \<open>register\<close> then walks: the elements found, after the scope itself unless the scope is
  the document.
\<close>

definition eventSelectors :: "string list" where
  "eventSelectors = map (\<lambda>key. ''w-on:'' @ key) AVAILABLE_EVENT_NAMES"

definition directiveSelectors :: "string list" where
  "directiveSelectors = map fst AVAILABLE_DIRECTIVES"

fun register_loop :: "engine \<Rightarrow> wupdate \<Rightarrow> elm list \<Rightarrow> dom \<Rightarrow> unit res" where
  "register_loop js wUpdate [] d = Some (Inr (), d)"
| "register_loop js wUpdate (elm # elms) d =
     seq (\<lambda>d. Some (registerEventHandler elm d))
         (\<lambda>_. seq (updateElement js wUpdate elm)
                 (\<lambda>_. register_loop js wUpdate elms)) d"

definition scan :: "dom \<Rightarrow> scope \<Rightarrow> elm list" where
  "scan d scopeElm =
     (let elems = querySelectorAll d scopeElm (eventSelectors @ directiveSelectors)
      in case scopeElm of Document \<Rightarrow> elems | Element e \<Rightarrow> e # elems)"

definition register :: "engine \<Rightarrow> wupdate \<Rightarrow> scope \<Rightarrow> dom \<Rightarrow> unit res" where
  "register js wUpdate scopeElm d = register_loop js wUpdate (scan d scopeElm) d"

section \<open>Notions used to state the properties\<close>

text \<open>One round of the loop of \<open>updateElement\<close>, for one entry of the directive table.\<close>

definition directive ::
  "engine \<Rightarrow> wupdate \<Rightarrow> elm \<Rightarrow> string \<Rightarrow> (elm \<Rightarrow> jsval \<Rightarrow> dom \<Rightarrow> dom) \<Rightarrow> dom \<Rightarrow> unit res" where
  "directive js wUpdate targetElm directiveName directiveHandler d =
     (case attributes (elements d targetElm) directiveName of
        None \<Rightarrow> Some (Inr (), d)
      | Some code \<Rightarrow>
          seq (evaluateString js wUpdate code targetElm None)
            (\<lambda>evaluationResult d'. Some (Inr (), directiveHandler targetElm evaluationResult d')) d)"

text \<open>
  One round of the loop of \<open>register\<close>, for one element; and running a list of computations
  one after the other, which stops at the first that throws or does not return.
\<close>

definition register_element :: "engine \<Rightarrow> wupdate \<Rightarrow> elm \<Rightarrow> dom \<Rightarrow> unit res" where
  "register_element js wUpdate elm d =
     seq (\<lambda>d. Some (registerEventHandler elm d)) (\<lambda>_. updateElement js wUpdate elm) d"

primrec run_all :: "(dom \<Rightarrow> unit res) list \<Rightarrow> dom \<Rightarrow> unit res" where
  "run_all [] d = Some (Inr (), d)"
| "run_all (m # ms) d = seq m (\<lambda>_. run_all ms) d"

text \<open>The snippets of the directives an element carries, in the order of the table.\<close>

definition directive_codes :: "dom \<Rightarrow> elm \<Rightarrow> string list" where
  "directive_codes d e =
     List.map_filter (\<lambda>(directiveName, directiveHandler). attributes (elements d e) directiveName)
       AVAILABLE_DIRECTIVES"

text \<open>
  The effect of one update of an element whose snippets return the values \<open>vals\<close>; and an
  update in which they do, each leaving the page as it is: a round of pure snippets.
\<close>

fun apply_all ::
  "elm \<Rightarrow> (string \<Rightarrow> jsval) \<Rightarrow> (string \<times> (elm \<Rightarrow> jsval \<Rightarrow> dom \<Rightarrow> dom)) list \<Rightarrow> dom \<Rightarrow> dom" where
  "apply_all elm vals [] d = d"
| "apply_all elm vals ((directiveName, directiveHandler) # entries) d =
     (case attributes (elements d elm) directiveName of
        None \<Rightarrow> apply_all elm vals entries d
      | Some code \<Rightarrow> apply_all elm vals entries (directiveHandler elm (vals directiveName) d))"

fun pure_round ::
  "engine \<Rightarrow> wupdate \<Rightarrow> elm \<Rightarrow> (string \<Rightarrow> jsval) \<Rightarrow> (string \<times> (elm \<Rightarrow> jsval \<Rightarrow> dom \<Rightarrow> dom)) list
     \<Rightarrow> dom \<Rightarrow> bool" where
  "pure_round js wUpdate elm vals [] d = True"
| "pure_round js wUpdate elm vals ((directiveName, directiveHandler) # entries) d =
     (case attributes (elements d elm) directiveName of
        None \<Rightarrow> pure_round js wUpdate elm vals entries d
      | Some code \<Rightarrow>
          evaluateString js wUpdate code elm None d = Some (Inr (vals directiveName), d)
          \<and> pure_round js wUpdate elm vals entries (directiveHandler elm (vals directiveName) d))"

text \<open>The text in a piece of markup.\<close>

primrec markup_text :: "markup \<Rightarrow> string" where
  "markup_text (MElem properties ms) = concat (map markup_text ms)"
| "markup_text (MText s) = s"

text \<open>
  What giving handles does: handles are taken from the next unused one upwards, the store
  below it is not touched, and the new nodes have the shape of the markup in every store
  that agrees with the new one on the handles taken.
\<close>

definition adopted ::
  "elm \<Rightarrow> (elm \<Rightarrow> element) \<Rightarrow> elm \<Rightarrow> (elm \<Rightarrow> element) \<Rightarrow> bool" where
  "adopted n store n' store' \<longleftrightarrow> n \<le> n' \<and> (\<forall>e. e < n \<longrightarrow> store' e = store e)"

definition shaped :: "elm \<Rightarrow> elm \<Rightarrow> (elm \<Rightarrow> element) \<Rightarrow> node \<Rightarrow> markup \<Rightarrow> bool" where
  "shaped n n' store' t m \<longleftrightarrow>
     (\<forall>store2. (\<forall>e. n \<le> e \<and> e < n' \<longrightarrow> store2 e = store' e) \<longrightarrow> shape store2 t = m)"

section \<open>Engines and pages for the evaluated examples\<close>

text \<open>
  An engine that knows five snippets (and rejects every other text as a syntax error):
  \<open>return 1+1\<close>, \<open>wUpdate($t)\<close>, \<open>throw 1\<close>, \<open>return typeof $c\<close> and \<open>this.value += 1\<close>.
  In \<open>wUpdate($t)\<close> the name \<open>$t\<close> is looked up in the context (a name that is not there is
  a ReferenceError), the closure is called, what it throws passes through, and the snippet
  ends without a return statement. \<open>typeof\<close> of a name that is nowhere is \<open>undefined\<close>, and
  of an element \<open>object\<close>. Adding a number to the value, a string, appends its digits.
\<close>

definition return_1_plus_1 :: snippet where
  "return_1_plus_1 wUpdate ctx this d = Some (Inr (Num (1 + 1)), d)"

definition wUpdate_t :: snippet where
  "wUpdate_t wUpdate ctx this d =
     (case ctx ''$t'' of
        None \<Rightarrow> Some (Inl ReferenceError, d)
      | Some v \<Rightarrow> seq (wUpdate [v]) (\<lambda>_ d'. Some (Inr Undefined, d')) d)"

definition throw_1 :: snippet where
  "throw_1 wUpdate ctx this d = Some (Inl (Thrown (Num 1)), d)"

definition return_typeof_c :: snippet where
  "return_typeof_c wUpdate ctx this d =
     Some (Inr (Str (case ctx ''$c'' of Some (Elem e) \<Rightarrow> ''object'' | _ \<Rightarrow> ''undefined'')), d)"

definition value_plus_1 :: snippet where
  "value_plus_1 wUpdate ctx this d =
     Some (Inr Undefined, modify this (\<lambda>el. el\<lparr>input_value := input_value el @ ''1''\<rparr>) d)"

definition example_js :: engine where
  "example_js code =
     (if code = ''return 1+1'' then Inr return_1_plus_1
      else if code = ''wUpdate($t)'' then Inr wUpdate_t
      else if code = ''throw 1'' then Inr throw_1
      else if code = ''return typeof $c'' then Inr return_typeof_c
      else if code = ''this.value += 1'' then Inr value_plus_1
      else Inl SyntaxError)"

text \<open>
  An engine in which every snippet prints its own source with \<open>console.error\<close> and returns
  it: the console then shows which snippets ran, in which order.
\<close>

definition tracing_js :: engine where
  "tracing_js code = Inr (\<lambda>wUpdate ctx this d. Some (Inr (Str code), console_error code d))"

text \<open>
  Pages are built from a blank one, whose parser and serializer are those of texts without
  markup: a text parses to one text node and markup serializes to its text.
\<close>

definition blank_element :: element where
  "blank_element =
     \<lparr>attributes = Map.empty, kind = OtherElement, style_display = [],
      mOriginalDisplay = None, input_value = []\<rparr>"

definition blank_page :: dom where
  "blank_page =
     \<lparr>document = [], detached = [], elements = (\<lambda>e. blank_element), fresh = 100,
      parser = (\<lambda>x s. case s of [] \<Rightarrow> [] | c # cs \<Rightarrow> [MText (c # cs)]),
      serializer = (\<lambda>ms. concat (map markup_text ms)),
      listeners = [], console = [], unhandled = []\<rparr>"

definition with_attributes :: "(string \<times> string) list \<Rightarrow> element" where
  "with_attributes as = blank_element\<lparr>attributes := map_of as\<rparr>"

text \<open>Three elements in a row: two named \<open>a\<close>, one named \<open>ev\<close>.\<close>

definition page_two_a :: dom where
  "page_two_a =
     blank_page\<lparr>document := [Node 1 [], Node 2 [], Node 3 []],
                elements := (\<lambda>e. if e = 1 \<or> e = 2 then with_attributes [(''w-ref'', ''a'')]
                                else if e = 3 then with_attributes [(''w-ref'', ''ev'')]
                                else blank_element)\<rparr>"

text \<open>
  A page with one element, 10, in the document; element 5, named \<open>new\<close>, exists but
  is not in the document yet.
\<close>

definition page_before_insert :: dom where
  "page_before_insert =
     blank_page\<lparr>document := [Node 10 []],
                elements := (\<lambda>e. if e = 5 then with_attributes [(''w-ref'', ''new'')]
                                else blank_element)\<rparr>"

text \<open>One element, shown inline as \<open>inline-block\<close>.\<close>

definition page_inline_block :: dom where
  "page_inline_block =
     blank_page\<lparr>document := [Node 1 []],
                elements := (\<lambda>e. if e = 1 then blank_element\<lparr>style_display := ''inline-block''\<rparr>
                                else blank_element)\<rparr>"




text \<open>Elements whose first, or second, directive throws, and one whose directive does not.\<close>

definition page_throwing :: dom where
  "page_throwing =
     blank_page\<lparr>document := [Node 1 [], Node 2 [], Node 3 []],
                elements := (\<lambda>e. if e = 1 then
                                  with_attributes [(''w-show'', ''throw 1''), (''w-text'', ''return 1+1'')]
                                else if e = 2 then
                                  with_attributes [(''w-text'', ''return 1+1'')]
                                else if e = 3 then
                                  with_attributes [(''w-value'', ''return 1+1''), (''w-text'', ''throw 1''),
                                                   (''w-html'', ''return 1+1'')]
                                else blank_element)\<rparr>"

text \<open>
  The scenario of the README: \<open><span w-ref="t" w-text="return 1+1">\<close> and
  \<open><span w-on:click="wUpdate($t)">\<close>; and the same page written with \<open>data-\<close> attributes.
\<close>

definition page_scenario :: dom where
  "page_scenario =
     blank_page\<lparr>document := [Node 1 [], Node 2 []],
                elements := (\<lambda>e. if e = 1 then
                                  with_attributes [(''w-ref'', ''t''), (''w-text'', ''return 1+1'')]
                                else if e = 2 then
                                  with_attributes [(''w-on:click'', ''wUpdate($t)'')]
                                else blank_element)\<rparr>"

definition page_scenario_data :: dom where
  "page_scenario_data =
     blank_page\<lparr>document := [Node 1 [], Node 2 []],
                elements := (\<lambda>e. if e = 1 then
                                  with_attributes [(''data-ref'', ''t''), (''data-text'', ''return 1+1'')]
                                else if e = 2 then
                                  with_attributes [(''data-on-click'', ''wUpdate($t)'')]
                                else blank_element)\<rparr>"

text \<open>
  A div, element 1, with a text directive and, below it, a span, element 2, with a click
  binding and a text directive; then element 3 with a click binding only.
\<close>

definition page_nested :: dom where
  "page_nested =
     blank_page\<lparr>document := [Node 1 [Node 2 []], Node 3 []],
                elements := (\<lambda>e. if e = 1 then with_attributes [(''w-text'', ''t1'')]
                                else if e = 2 then
                                  with_attributes [(''w-text'', ''t2''), (''w-on:click'', ''c2'')]
                                else if e = 3 then with_attributes [(''w-on:click'', ''c3'')]
                                else blank_element)\<rparr>"

text \<open>
  \<open><div w-text="return typeof $c"><span w-ref="c"></span></div>\<close>; and an element with a
  pure text directive and an update directive that writes the value.
\<close>

definition page_typeof :: dom where
  "page_typeof =
     blank_page\<lparr>document := [Node 1 [Node 2 []]],
                elements := (\<lambda>e. if e = 1 then with_attributes [(''w-text'', ''return typeof $c'')]
                                else if e = 2 then with_attributes [(''w-ref'', ''c'')]
                                else blank_element)\<rparr>"

definition page_update_writes :: dom where
  "page_update_writes =
     blank_page\<lparr>document := [Node 1 []],
                elements := (\<lambda>e. if e = 1 then
                                  with_attributes [(''w-update'', ''this.value += 1''),
                                                   (''w-text'', ''return 1+1'')]
                                else blank_element)\<rparr>"

text \<open>
  An element with a value, a text and an html directive, on a page whose parser wraps every
  text in a new element.
\<close>

definition page_markup :: dom where
  "page_markup =
     blank_page\<lparr>document := [Node 1 [Node 2 []]],
                parser := (\<lambda>x s. [MElem blank_element [MText s]]),
                elements := (\<lambda>e. if e = 1 then
                                  with_attributes [(''w-value'', ''return 1+1''),
                                                   (''w-text'', ''return 1+1''),
                                                   (''w-html'', ''return 1+1'')]
                                else blank_element)\<rparr>"

section \<open>Properties\<close>

lemma modify_same [simp]: "elements (modify elm f d) elm = f (elements d elm)"
  by (simp add: modify_def)

lemma modify_other [simp]: "e \<noteq> elm \<Longrightarrow> elements (modify elm f d) e = elements d e"
  by (simp add: modify_def)

lemmas example_defs =
  blank_page_def blank_element_def with_attributes_def document_order_def

subsection \<open>The tree\<close>

lemma subtrees_at_replace_in:
  "subtrees_at x (replace_in x new t) = map (\<lambda>_. Node x new) (subtrees_at x t)"
proof (induction t)
  case (Node e kids)
  show ?case
  proof (cases "e = x")
    case True
    then show ?thesis by simp
  next
    case False
    have "concat (map (subtrees_at x \<circ> replace_in x new) kids)
        = concat (map (\<lambda>k. map (\<lambda>_. Node x new) (subtrees_at x k)) kids)"
      using Node by (auto intro!: arg_cong [where f = concat])
    then show ?thesis
      using False by (simp add: map_concat comp_def)
  qed
next
  case (Text s)
  then show ?case by simp
qed

lemma subtrees_at_empty: "subtrees_at x t = [] \<longleftrightarrow> x \<notin> set (preorder t)"
  by (induction t) auto

lemma subtrees_at_forest_empty:
  "concat (map (subtrees_at x) ts) = [] \<longleftrightarrow> x \<notin> set (concat (map preorder ts))"
  by (induction ts) (auto simp: subtrees_at_empty)

lemma subtrees_at_forest_replace:
  "concat (map (subtrees_at x) (map (replace_in x new) ts))
   = map (\<lambda>_. Node x new) (concat (map (subtrees_at x) ts))"
  by (induction ts) (simp_all add: subtrees_at_replace_in)

lemma childNodes_set_children:
  assumes "x \<in> set (all_elements d)"
  shows "childNodes (set_children x new d) x = new"
proof -
  let ?old = "concat (map (subtrees_at x) (document d @ detached d))"
  have "?old \<noteq> []"
    using assms subtrees_at_forest_empty [of x "document d @ detached d"]
    unfolding all_elements_def by blast
  then obtain s ss where old: "?old = s # ss"
    by (cases ?old) auto
  have "concat (map (subtrees_at x)
        (document (set_children x new d) @ detached (set_children x new d)))
      = concat (map (subtrees_at x) (map (replace_in x new) (document d @ detached d)))
        @ concat (map (subtrees_at x) (filter is_Node (childNodes d x)))"
    by (simp add: set_children_def)
  also have "\<dots> = map (\<lambda>_. Node x new) ?old
        @ concat (map (subtrees_at x) (filter is_Node (childNodes d x)))"
    by (simp only: subtrees_at_forest_replace)
  also have "\<dots> = Node x new # (map (\<lambda>_. Node x new) ss
        @ concat (map (subtrees_at x) (filter is_Node (childNodes d x))))"
    by (simp only: old list.map append_Cons)
  finally show ?thesis
    by (simp only: childNodes_def list.case node.case)
qed

lemma set_children_simps [simp]:
  "elements (set_children x new d) = elements d"
  "fresh (set_children x new d) = fresh d"
  "parser (set_children x new d) = parser d"
  "serializer (set_children x new d) = serializer d"
  "listeners (set_children x new d) = listeners d"
  "console (set_children x new d) = console d"
  "unhandled (set_children x new d) = unhandled d"
  by (simp_all add: set_children_def)

lemma preorder_replace_in: "x \<in> set (preorder t) \<Longrightarrow> x \<in> set (preorder (replace_in x new t))"
  by (induction t) auto

lemma all_elements_set_children:
  "x \<in> set (all_elements d) \<Longrightarrow> x \<in> set (all_elements (set_children x new d))"
  by (auto simp: all_elements_def set_children_def intro: preorder_replace_in)

lemma text_of_shape: "markup_text (shape store t) = text_of t"
proof (induction t)
  case (Node e kids)
  have kids: "map (\<lambda>k. markup_text (shape store k)) kids = map text_of kids"
    by (rule map_cong [OF refl]) (use Node in auto)
  show ?case by (simp add: comp_def kids)
next
  case (Text s)
  then show ?case by simp
qed

lemma textContent_shape:
  "textContent d x = concat (map markup_text (map (shape (elements d)) (childNodes d x)))"
  by (simp add: textContent_def comp_def text_of_shape)

lemma thread_adopt:
  assumes "\<And>m n store t n' store'. m \<in> set ms \<Longrightarrow> adopt m (n, store) = (t, n', store') \<Longrightarrow>
             adopted n store n' store' \<and> shaped n n' store' t m"
    and "thread (map adopt ms) (n, store) = (ts, n', store')"
  shows "adopted n store n' store' \<and> list_all2 (shaped n n' store') ts ms"
  using assms
proof (induction ms arbitrary: n store ts n' store')
  case Nil
  then show ?case by (simp add: adopted_def)
next
  case (Cons m ms)
  obtain t n1 store1 where 1: "adopt m (n, store) = (t, n1, store1)"
    by (cases "adopt m (n, store)") auto
  obtain ts' where 2: "thread (map adopt ms) (n1, store1) = (ts', n', store')" and ts: "ts = t # ts'"
    using Cons.prems(2) 1 by (auto split: prod.splits)
  have a1: "adopted n store n1 store1" and s1: "shaped n n1 store1 t m"
    using Cons.prems(1) [of m n store t n1 store1] 1 by simp_all
  have "adopted n1 store1 n' store' \<and> list_all2 (shaped n1 n' store') ts' ms"
    by (rule Cons.IH [OF _ 2]) (rule Cons.prems(1), simp_all)
  then have a2: "adopted n1 store1 n' store'" and s2: "list_all2 (shaped n1 n' store') ts' ms"
    by simp_all
  have a: "adopted n store n' store'"
    using a1 a2 by (auto simp: adopted_def)
  have "shaped n n' store' t m"
    unfolding shaped_def
  proof (intro allI impI)
    fix store2 assume "\<forall>e. n \<le> e \<and> e < n' \<longrightarrow> store2 e = store' e"
    then have "\<forall>e. n \<le> e \<and> e < n1 \<longrightarrow> store2 e = store1 e"
      using a2 by (auto simp: adopted_def)
    then show "shape store2 t = m"
      using s1 by (auto simp: shaped_def)
  qed
  moreover have "list_all2 (shaped n n' store') ts' ms"
    using s2 a1 by (auto simp: shaped_def adopted_def elim!: list_all2_mono)
  ultimately show ?case
    using a ts by simp
qed

lemma adopt_adopted:
  "adopt m (n, store) = (t, n', store') \<Longrightarrow> adopted n store n' store' \<and> shaped n n' store' t m"
proof (induction m arbitrary: n store t n' store')
  case (MElem properties ms)
  obtain kids where th: "thread (map adopt ms) (Suc n, store(n := properties)) = (kids, n', store')"
    and t: "t = Node n kids"
    using MElem.prems by (auto split: prod.splits)
  have *: "adopted (Suc n) (store(n := properties)) n' store'
      \<and> list_all2 (shaped (Suc n) n' store') kids ms"
    by (rule thread_adopt [OF _ th]) (use MElem.IH in blast)
  then have a: "adopted n store n' store'" and at_n: "store' n = properties"
    by (auto simp: adopted_def)
  have "shaped n n' store' t m" if "m = MElem properties ms" for m
    unfolding shaped_def that t
  proof (intro allI impI)
    fix store2 assume agree: "\<forall>e. n \<le> e \<and> e < n' \<longrightarrow> store2 e = store' e"
    have "n < n'" using * by (auto simp: adopted_def)
    then have "store2 n = properties" using agree at_n by auto
    moreover have "list_all2 (\<lambda>k m. shape store2 k = m) kids ms"
      using * agree by (auto simp: shaped_def elim!: list_all2_mono)
    then have "map (shape store2) kids = ms"
      by (induction rule: list_all2_induct) auto
    ultimately show "shape store2 (Node n kids) = MElem properties ms"
      by simp
  qed
  then show ?case using a by simp
next
  case (MText s)
  then show ?case by (auto simp: adopted_def shaped_def)
qed

lemma thread_adopt_adopted:
  assumes "thread (map adopt ms) (n, store) = (ts, n', store')"
  shows "n \<le> n'" and "\<And>e. e < n \<Longrightarrow> store' e = store e" and "map (shape store') ts = ms"
proof -
  have *: "adopted n store n' store' \<and> list_all2 (shaped n n' store') ts ms"
    by (rule thread_adopt [OF _ assms]) (use adopt_adopted in blast)
  then show "n \<le> n'" and "\<And>e. e < n \<Longrightarrow> store' e = store e"
    by (auto simp: adopted_def)
  have "list_all2 (\<lambda>k m. shape store' k = m) ts ms"
    using * by (auto simp: shaped_def elim!: list_all2_mono)
  then show "map (shape store') ts = ms"
    by (induction rule: list_all2_induct) auto
qed

subsection \<open>The reference registry\<close>

lemma foldl_collectRefs_step:
  "foldl (collectRefs_step d) m xs (CHR ''$'' # n) =
     (if filter (\<lambda>e. attributes (elements d e) ''w-ref'' = Some n) xs = [] then m (CHR ''$'' # n)
      else Some (last (filter (\<lambda>e. attributes (elements d e) ''w-ref'' = Some n) xs)))"
proof (induction xs rule: rev_induct)
  case Nil
  then show ?case by simp
next
  case (snoc x xs)
  then show ?case
    by (auto simp: collectRefs_step_def split: option.splits)
qed

lemma matches_ref: "matches d [''w-ref''] e \<longleftrightarrow> attributes (elements d e) ''w-ref'' \<noteq> None"
  by (simp add: matches_def)

lemma collectRefs_attribute_present:
  "e \<in> set (querySelectorAll d Document [''w-ref'']) \<Longrightarrow> attributes (elements d e) ''w-ref'' \<noteq> None"
  by (simp add: querySelectorAll_def matches_ref)

lemma filter_matches_ref:
  "filter (\<lambda>e. matches d [''w-ref''] e \<and> attributes (elements d e) ''w-ref'' = Some n) xs
   = filter (\<lambda>e. attributes (elements d e) ''w-ref'' = Some n) xs"
  by (rule filter_cong) (auto simp: matches_ref)

lemma collectRefs_lookup:
  "collectRefs d (CHR ''$'' # n) =
     (if filter (\<lambda>e. attributes (elements d e) ''w-ref'' = Some n) (document_order d) = [] then None
      else Some (last (filter (\<lambda>e. attributes (elements d e) ''w-ref'' = Some n) (document_order d))))"
  by (simp add: collectRefs_def querySelectorAll_def foldl_collectRefs_step filter_matches_ref)

lemma collectRefs_last_named:
  assumes "document_order d = before @ E # after"
    and "attributes (elements d E) ''w-ref'' = Some n"
    and "\<forall>e \<in> set after. attributes (elements d e) ''w-ref'' \<noteq> Some n"
  shows "collectRefs d (CHR ''$'' # n) = Some E"
proof -
  have "filter (\<lambda>e. attributes (elements d e) ''w-ref'' = Some n) after = []"
    using assms(3) by (simp add: filter_empty_conv)
  then have "filter (\<lambda>e. attributes (elements d e) ''w-ref'' = Some n) (document_order d)
     = filter (\<lambda>e. attributes (elements d e) ''w-ref'' = Some n) before @ [E]"
    using assms(1,2) by simp
  then show ?thesis by (simp add: collectRefs_lookup)
qed

lemma set_preorder_appendChild_in:
  "set (preorder (appendChild_in parent child t)) =
     set (preorder t) \<union> (if parent \<in> set (preorder t) then set (preorder child) else {})"
proof (induction t)
  case (Node e kids)
  show ?case
  proof (cases "e = parent")
    case True
    then show ?thesis by auto
  next
    case False
    then show ?thesis using Node by (auto split: if_splits)
  qed
next
  case (Text s)
  then show ?case by simp
qed

lemma set_document_order_appendChild:
  "set (document_order (appendChild parent child d)) =
     set (document_order d)
       \<union> (if parent \<in> set (document_order d) then set (preorder child) else {})"
  by (auto simp: document_order_def appendChild_def set_preorder_appendChild_in split: if_splits)

lemma collectRefs_only_named:
  assumes "E \<in> set (document_order d)"
    and "attributes (elements d E) ''w-ref'' = Some n"
    and "\<forall>e \<in> set (document_order d). attributes (elements d e) ''w-ref'' = Some n \<longrightarrow> e = E"
  shows "collectRefs d (CHR ''$'' # n) = Some E"
proof -
  let ?named = "filter (\<lambda>e. attributes (elements d e) ''w-ref'' = Some n) (document_order d)"
  have ne: "?named \<noteq> []"
    using assms(1,2) by (auto simp: filter_empty_conv)
  then have "last ?named \<in> set ?named"
    by (rule last_in_set)
  then have "last ?named = E"
    using assms(3) by auto
  with ne show ?thesis
    by (simp add: collectRefs_lookup)
qed

lemma collectRefs_after_appendChild:
  assumes "parent \<in> set (document_order d)"
    and "attributes (elements d E) ''w-ref'' = Some n"
    and "\<forall>e \<in> set (document_order d). attributes (elements d e) ''w-ref'' \<noteq> Some n"
  shows "collectRefs (appendChild parent (Node E []) d) (CHR ''$'' # n) = Some E"
proof -
  have el: "elements (appendChild parent (Node E []) d) = elements d"
    by (simp add: appendChild_def)
  have s: "set (document_order (appendChild parent (Node E []) d)) = insert E (set (document_order d))"
    using assms(1) by (simp add: set_document_order_appendChild)
  show ?thesis
    by (rule collectRefs_only_named) (use assms(2,3) s el in auto)
qed

text \<open>
  Claim C1, as the code has it. The mapping that \<open>collectRefs\<close> computes, and the getter
  \<open>refs\<close> with it, is a function of the page as it is at the call: nothing is kept between
  calls, so an element is found as soon as it is in the document, whatever put it there.
  For an element \<open>E\<close> of the document named \<open>n\<close> by its \<open>w-ref\<close> attribute, with no element
  of that name after it in document order, the mapping has \<open>E\<close> under the key \<open>$n\<close>; so has
  the context of every evaluation, unless the name is \<open>ev\<close>, whose key holds the event.
  In particular, right after an element with a name that no element of the document has
  is appended to an element of the document, the mapping has it, with no call of
  \<open>register\<close> in between.
\<close>

theorem refs_maps_last_named_element:
  assumes "document_order d = before @ E # after"
    and "attributes (elements d E) ''w-ref'' = Some n"
    and "\<forall>e \<in> set after. attributes (elements d e) ''w-ref'' \<noteq> Some n"
  shows "refs d (CHR ''$'' # n) = Some E
       \<and> collectRefs d (CHR ''$'' # n) = Some E
       \<and> (n \<noteq> ''ev'' \<longrightarrow> context_object d originalEvent (CHR ''$'' # n) = Some (Elem E))
       \<and> (parent \<in> set (document_order d0)
            \<and> attributes (elements d0 E0) ''w-ref'' = Some n0
            \<and> (\<forall>e \<in> set (document_order d0). attributes (elements d0 e) ''w-ref'' \<noteq> Some n0)
          \<longrightarrow> refs (appendChild parent (Node E0 []) d0) (CHR ''$'' # n0) = Some E0)"
  using collectRefs_last_named [OF assms] collectRefs_after_appendChild [of parent d0 E0 n0]
  by (simp add: refs_def context_object_def)

theorem refs_maps_last_named_element_witness:
  "refs page_two_a ''$a'' = Some 2
   \<and> collectRefs page_two_a ''$a'' = Some 2
   \<and> context_object page_two_a None ''$a'' = Some (Elem 2)
   \<and> refs page_before_insert ''$new'' = None
   \<and> refs (appendChild 10 (Node 5 []) page_before_insert) ''$new'' = Some 5"
proof -
  have 1: "document_order page_two_a = [1] @ 2 # [3]"
    by (simp add: page_two_a_def example_defs)
  have 2: "attributes (elements page_two_a 2) ''w-ref'' = Some ''a''"
    by (simp add: page_two_a_def example_defs)
  have 3: "\<forall>e \<in> set [3]. attributes (elements page_two_a e) ''w-ref'' \<noteq> Some ''a''"
    by (simp add: page_two_a_def example_defs)
  have 4: "10 \<in> set (document_order page_before_insert)"
    and 5: "attributes (elements page_before_insert 5) ''w-ref'' = Some ''new''"
    and 6: "\<forall>e \<in> set (document_order page_before_insert).
              attributes (elements page_before_insert e) ''w-ref'' \<noteq> Some ''new''"
    by (simp_all add: page_before_insert_def example_defs)
  have 7: "refs page_before_insert ''$new'' = None"
    by (simp add: refs_def collectRefs_def querySelectorAll_def matches_def
        page_before_insert_def example_defs)
  show ?thesis
    using refs_maps_last_named_element
      [OF 1 2 3, where originalEvent = None and parent = 10 and ?d0.0 = page_before_insert
         and ?E0.0 = 5 and ?n0.0 = "''new''"] 4 5 6 7
    by simp
qed

text \<open>
  Claim C1 as it is written fails where a name is used twice and where the name is \<open>ev\<close>:
  on the page of three elements, element 1 is in the document and is named \<open>a\<close>, yet the
  mapping has nothing under \<open>a\<close> and has element 2 under \<open>$a\<close>; element 3 is named \<open>ev\<close>,
  yet the context of a directive evaluation has undefined under \<open>$ev\<close>.
\<close>

theorem refs_first_of_two_counterexample:
  "1 \<in> set (document_order page_two_a)
   \<and> attributes (elements page_two_a 1) ''w-ref'' = Some ''a''
   \<and> refs page_two_a ''a'' = None
   \<and> refs page_two_a ''$a'' = Some 2
   \<and> 3 \<in> set (document_order page_two_a)
   \<and> attributes (elements page_two_a 3) ''w-ref'' = Some ''ev''
   \<and> context_object page_two_a None ''$ev'' = Some Undefined"
  by (simp add: refs_def context_object_def collectRefs_def querySelectorAll_def page_two_a_def
      matches_def collectRefs_step_def example_defs)

text \<open>
  Claim C8. \<open>collectRefs\<close> is a total function into mappings: it has no failing branch and
  never compares two names. When the elements of the document named \<open>n\<close> are \<open>named\<close>, in
  document order, and there is at least one, the key \<open>$n\<close> holds the last of them.
\<close>

theorem collectRefs_last_found_wins:
  assumes "filter (\<lambda>e. attributes (elements d e) ''w-ref'' = Some n) (document_order d) = named"
    and "named \<noteq> []"
  shows "collectRefs d (CHR ''$'' # n) = Some (last named)"
  using assms by (simp add: collectRefs_lookup)

theorem collectRefs_last_found_wins_witness:
  "filter (\<lambda>e. attributes (elements page_two_a e) ''w-ref'' = Some ''a'')
     (document_order page_two_a) = [1, 2]
   \<and> collectRefs page_two_a ''$a'' = Some 2"
proof -
  have 1: "filter (\<lambda>e. attributes (elements page_two_a e) ''w-ref'' = Some ''a'')
     (document_order page_two_a) = [1, 2]"
    by (simp add: page_two_a_def example_defs)
  have 2: "[1, 2 :: elm] \<noteq> []"
    by simp
  show ?thesis
    using 1 collectRefs_last_found_wins [OF 1 2] by simp
qed

subsection \<open>The show directive\<close>

text \<open>
  Claim C3. An element whose inline display is \<open>dsp\<close>, neither empty nor \<open>none\<close>: the handler
  of \<open>w-show\<close> with a falsy result stores \<open>dsp\<close> in \<open>mOriginalDisplay\<close> and sets the display
  to \<open>none\<close>, and the handler with a truthy result after that sets the display to \<open>dsp\<close>
  again. An element with nothing stored (the property never assigned, or the empty string):
  the handler with a truthy result leaves no inline display.
\<close>

theorem w_show_hide_then_show_restores:
  "(dsp \<noteq> [] \<and> dsp \<noteq> ''none'' \<and> style_display (elements d elm) = dsp
      \<and> \<not> truthy falsy_result \<and> truthy truthy_result
     \<longrightarrow> mOriginalDisplay (elements (w_show elm falsy_result d) elm) = Some dsp
       \<and> style_display (elements (w_show elm falsy_result d) elm) = ''none''
       \<and> style_display (elements (w_show elm truthy_result (w_show elm falsy_result d)) elm) = dsp)
   \<and> ((mOriginalDisplay (elements d elm) = None \<or> mOriginalDisplay (elements d elm) = Some [])
        \<and> truthy truthy_result
     \<longrightarrow> style_display (elements (w_show elm truthy_result d) elm) = [])"
  by (auto simp: w_show_def Let_def)

theorem w_show_hide_then_show_restores_witness:
  "style_display (elements (w_show 1 (Bool False) page_inline_block) 1) = ''none''
   \<and> style_display
        (elements (w_show 1 (Bool True) (w_show 1 (Bool False) page_inline_block)) 1)
      = ''inline-block''
   \<and> style_display (elements (w_show 1 (Bool True) page_inline_block) 1) = []"
proof -
  have 1: "style_display (elements page_inline_block 1) = ''inline-block''"
    by (simp add: page_inline_block_def example_defs)
  have 2: "mOriginalDisplay (elements page_inline_block 1) = None"
    by (simp add: page_inline_block_def example_defs)
  show ?thesis
    using 1 2
      w_show_hide_then_show_restores
        [of "''inline-block''" page_inline_block 1 "Bool False" "Bool True"]
    by simp
qed

subsection \<open>The evaluator\<close>

lemmas run_defs =
  evaluateString_def seq_def example_js_def return_1_plus_1_def wUpdate_t_def throw_1_def
  return_typeof_c_def value_plus_1_def console_error_def

text \<open>
  Claim C9. When the snippet compiled from \<open>code\<close> throws \<open>error\<close>, \<open>evaluateString\<close>
  prints \<open>code\<close> with \<open>console.error\<close> and throws the same \<open>error\<close>, on the page as the
  snippet left it; when it returns \<open>v\<close> (undefined included), so does \<open>evaluateString\<close>, with
  nothing printed; a text that does not compile is printed and its error thrown.
\<close>

theorem evaluateString_rethrows_or_returns:
  "(js code = Inr fn
      \<and> fn wUpdate (context_object d originalEvent) contextThis d = Some (Inl error, d')
     \<longrightarrow> evaluateString js wUpdate code contextThis originalEvent d
           = Some (Inl error, d'\<lparr>console := console d' @ [code]\<rparr>))
   \<and> (js code = Inr fn
      \<and> fn wUpdate (context_object d originalEvent) contextThis d = Some (Inr v, d')
     \<longrightarrow> evaluateString js wUpdate code contextThis originalEvent d = Some (Inr v, d'))
   \<and> (js code = Inl error
     \<longrightarrow> evaluateString js wUpdate code contextThis originalEvent d
           = Some (Inl error, d\<lparr>console := console d @ [code]\<rparr>))"
  by (simp add: evaluateString_def console_error_def)

theorem evaluateString_rethrows_or_returns_witness:
  "evaluateString example_js (wUpdate_closure example_js 0) ''throw 1'' 1 None blank_page
     = Some (Inl (Thrown (Num 1)), blank_page\<lparr>console := [''throw 1'']\<rparr>)
   \<and> evaluateString example_js (wUpdate_closure example_js 0) ''return 1+1'' 1 None blank_page
     = Some (Inr (Num 2), blank_page)
   \<and> evaluateString example_js (wUpdate_closure example_js 0) ''return 1 +'' 1 None blank_page
     = Some (Inl SyntaxError, blank_page\<lparr>console := [''return 1 +'']\<rparr>)"
proof -
  have 1: "example_js ''throw 1'' = Inr throw_1"
    and 2: "example_js ''return 1+1'' = Inr return_1_plus_1"
    and 3: "example_js ''return 1 +'' = Inl SyntaxError"
    by (simp_all add: example_js_def)
  have 4: "throw_1 (wUpdate_closure example_js 0) (context_object blank_page None) 1 blank_page
      = Some (Inl (Thrown (Num 1)), blank_page)"
    by (simp add: throw_1_def)
  have 5: "return_1_plus_1 (wUpdate_closure example_js 0) (context_object blank_page None) 1
      blank_page = Some (Inr (Num 2), blank_page)"
    by (simp add: return_1_plus_1_def)
  have 6: "console blank_page = []"
    by (simp add: blank_page_def)
  show ?thesis
    using 1 2 3 4 5 6
      evaluateString_rethrows_or_returns
        [where js = example_js and code = "''throw 1''" and fn = throw_1
           and wUpdate = "wUpdate_closure example_js 0" and d = blank_page
           and originalEvent = None and contextThis = 1 and error = "Thrown (Num 1)"
           and d' = blank_page]
      evaluateString_rethrows_or_returns
        [where js = example_js and code = "''return 1+1''" and fn = return_1_plus_1
           and wUpdate = "wUpdate_closure example_js 0" and d = blank_page
           and originalEvent = None and contextThis = 1 and v = "Num 2" and d' = blank_page]
      evaluateString_rethrows_or_returns
        [where js = example_js and code = "''return 1 +''"
           and wUpdate = "wUpdate_closure example_js 0" and d = blank_page
           and originalEvent = None and contextThis = 1 and error = SyntaxError]
    by simp
qed

subsection \<open>Event binding\<close>



lemma addEventListener_simps [simp]:
  "elements (addEventListener target type l d) = elements d"
  "console (addEventListener target type l d) = console d"
  "document (addEventListener target type l d) = document d"
  "detached (addEventListener target type l d) = detached d"
  "fresh (addEventListener target type l d) = fresh d"
  "parser (addEventListener target type l d) = parser d"
  by (simp_all add: addEventListener_def)

lemma form_property_addEventListener [simp]:
  "form_property (addEventListener target type l d) x = form_property d x"
  unfolding form_property_def document_order_def ancestors_def
  by (simp only: addEventListener_simps)



lemmas scan_defs =
  scan_def querySelectorAll_def matches_def eventSelectors_def directiveSelectors_def
  AVAILABLE_EVENT_NAMES_def AVAILABLE_DIRECTIVES_def









subsection \<open>The directive engine\<close>

lemma updateElement_loop_append:
  "updateElement_loop js wUpdate elm (xs @ ys) d
   = seq (updateElement_loop js wUpdate elm xs) (\<lambda>_. updateElement_loop js wUpdate elm ys) d"
proof (induction xs arbitrary: d)
  case Nil
  then show ?case by (simp add: seq_def)
next
  case (Cons x xs)
  then show ?case
    by (cases x) (simp add: seq_def split: option.splits sum.splits prod.splits)
qed

lemma handler_frames [simp]:
  "attributes (elements (w_show elm v d) e) = attributes (elements d e)"
  "attributes (elements (w_value elm v d) e) = attributes (elements d e)"
  "elements (w_text elm v d) = elements d"
  "console (w_show elm v d) = console d"
  "console (w_value elm v d) = console d"
  "console (w_text elm v d) = console d"
  "console (w_html elm v d) = console d"
  "fresh (w_show elm v d) = fresh d"
  "fresh (w_value elm v d) = fresh d"
  "fresh (w_text elm v d) = fresh d"
  by (auto simp: w_show_def w_value_def w_text_def w_html_def set_markup_def modify_def Let_def
      split: option.splits prod.splits)

lemma w_html_frame:
  "fresh d \<le> fresh (w_html elm v d)"
  "e < fresh d \<Longrightarrow> elements (w_html elm v d) e = elements d e"
  using thread_adopt_adopted(1,2)
    [of "parser d elm (null_to_empty_DOMString v)" "fresh d" "elements d"]
  by (auto simp: w_html_def set_markup_def split: prod.splits)

lemmas update_defs =
  updateElement_def AVAILABLE_DIRECTIVES_def w_show_def w_value_def w_update_def w_text_def
  w_html_def

lemmas tree_defs = textContent_def childNodes_def set_children_def

text \<open>
  Claim C2, as the code has it. \<open>updateElement\<close> has no handler of its own for what
  \<open>evaluateString\<close> throws. When the directives before one entry of the table have been
  applied and the snippet of that entry throws, \<open>updateElement\<close> ends with that error on the
  page as it then is: what was applied stays, and the entries after it are not looked at.
  \<open>updateElements\<close> ends with it too, whatever targets follow, and so does the loop of
  \<open>register\<close>, whatever elements follow. Separate listeners are independent: what one
  listener throws goes to the browser, and the listeners after it run.
\<close>

theorem updateElement_stops_at_first_throw:
  assumes "AVAILABLE_DIRECTIVES = before @ (directiveName, directiveHandler) # after"
    and "updateElement_loop js wUpdate elm before d = Some (Inr (), d1)"
    and "attributes (elements d1 elm) directiveName = Some code"
    and "evaluateString js wUpdate code elm None d1 = Some (Inl error, d2)"
  shows "updateElement js wUpdate elm d = Some (Inl error, d2)
       \<and> updateElements js wUpdate (Elem elm # targetElms) d = Some (Inl error, d2)
       \<and> (registerEventHandler elm d0 = (Inr (), d)
            \<longrightarrow> register_loop js wUpdate (elm # elms) d0 = Some (Inl error, d2))
       \<and> (call_listener js wUpdate l ev d3 = Some (Inl error', d4)
            \<longrightarrow> call_listeners js wUpdate (l # ls) ev d3
                = call_listeners js wUpdate ls ev (d4\<lparr>unhandled := unhandled d4 @ [error']\<rparr>))"
proof -
  have "updateElement js wUpdate elm d = Some (Inl error, d2)"
    unfolding updateElement_def assms(1)
    using assms(2-) by (simp add: updateElement_loop_append seq_def)
  then show ?thesis by (simp add: seq_def report_unhandled_def)
qed

text \<open>
  Element 3 of the page carries \<open>w-value\<close> (\<open>return 1+1\<close>), \<open>w-text\<close> (\<open>throw 1\<close>) and
  \<open>w-html\<close> (\<open>return 1+1\<close>): the value is set, the text directive throws, and the update
  ends there.
\<close>

theorem updateElement_stops_at_first_throw_witness:
  "updateElement example_js (wUpdate_closure example_js 0) 3 page_throwing
     = Some (Inl (Thrown (Num 1)), console_error ''throw 1'' (w_value 3 (Num 2) page_throwing))
   \<and> updateElements example_js (wUpdate_closure example_js 0) [Elem 3, Elem 2] page_throwing
     = Some (Inl (Thrown (Num 1)), console_error ''throw 1'' (w_value 3 (Num 2) page_throwing))
   \<and> call_listeners example_js (wUpdate_closure example_js 0)
        [PlainListener ''click'' 1 ''throw 1'', PlainListener ''click'' 2 ''return 1+1'']
        (Event ''click'' 1 None) blank_page
     = call_listeners example_js (wUpdate_closure example_js 0)
        [PlainListener ''click'' 2 ''return 1+1''] (Event ''click'' 1 None)
        (blank_page\<lparr>console := [''throw 1''], unhandled := [Thrown (Num 1)]\<rparr>)"
proof -
  have 1: "AVAILABLE_DIRECTIVES
      = [(''w-show'', w_show), (''w-value'', w_value), (''w-update'', w_update)]
        @ (''w-text'', w_text) # [(''w-html'', w_html)]"
    by (simp add: AVAILABLE_DIRECTIVES_def)
  have 2: "updateElement_loop example_js (wUpdate_closure example_js 0) 3
      [(''w-show'', w_show), (''w-value'', w_value), (''w-update'', w_update)] page_throwing
      = Some (Inr (), w_value 3 (Num 2) page_throwing)"
    by (simp add: run_defs page_throwing_def example_defs w_update_def)
  have 3: "attributes (elements (w_value 3 (Num 2) page_throwing) 3) ''w-text'' = Some ''throw 1''"
    by (simp add: page_throwing_def example_defs)
  have 4: "evaluateString example_js (wUpdate_closure example_js 0) ''throw 1'' 3 None
      (w_value 3 (Num 2) page_throwing)
      = Some (Inl (Thrown (Num 1)), console_error ''throw 1'' (w_value 3 (Num 2) page_throwing))"
    by (simp add: run_defs)
  have 5: "call_listener example_js (wUpdate_closure example_js 0)
      (PlainListener ''click'' 1 ''throw 1'') (Event ''click'' 1 None) blank_page
      = Some (Inl (Thrown (Num 1)), blank_page\<lparr>console := [''throw 1'']\<rparr>)"
    by (simp add: handleEvent_def run_defs example_defs)
  show ?thesis
    using updateElement_stops_at_first_throw [OF 1 2 3 4,
        where targetElms = "[Elem 2]" and l = "PlainListener ''click'' 1 ''throw 1''"
          and ev = "Event ''click'' 1 None" and ?d3.0 = blank_page
          and error' = "Thrown (Num 1)" and ?d4.0 = "blank_page\<lparr>console := [''throw 1'']\<rparr>"
          and ls = "[PlainListener ''click'' 2 ''return 1+1'']"] 5
    by (simp add: example_defs)
qed

text \<open>
  Claim C2 as it is written fails. Element 1 of the page carries \<open>w-show\<close> with a snippet
  that throws and \<open>w-text\<close> with \<open>return 1+1\<close>. Its update ends with the error and a page
  that differs from the old one in the console only: the text is still empty, although the
  text directive on its own sets it to \<open>2\<close>. Updating elements 1 and 2 in one call ends the
  same way, so element 2, whose only directive is sound, is not updated either.
\<close>

theorem updateElement_remaining_directives_counterexample:
  "updateElement example_js (wUpdate_closure example_js 0) 1 page_throwing
     = Some (Inl (Thrown (Num 1)), page_throwing\<lparr>console := [''throw 1'']\<rparr>)
   \<and> textContent (page_throwing\<lparr>console := [''throw 1'']\<rparr>) 1 = []
   \<and> directive example_js (wUpdate_closure example_js 0) 1 ''w-text'' w_text page_throwing
     = Some (Inr (), w_text 1 (Num 2) page_throwing)
   \<and> textContent (w_text 1 (Num 2) page_throwing) 1 = ''2''
   \<and> updateElements example_js (wUpdate_closure example_js 0) [Elem 1, Elem 2] page_throwing
     = Some (Inl (Thrown (Num 1)), page_throwing\<lparr>console := [''throw 1'']\<rparr>)"
  by (simp add: update_defs run_defs page_throwing_def example_defs directive_def digits.simps
      tree_defs)

subsection \<open>The scenario of the README\<close>

lemma page_scenario_facts:
  "document page_scenario = [Node 1 [], Node 2 []]"
  "detached page_scenario = []"
  "attributes (elements page_scenario 1) = map_of [(''w-ref'', ''t''), (''w-text'', ''return 1+1'')]"
  "attributes (elements page_scenario 2) = map_of [(''w-on:click'', ''wUpdate($t)'')]"
  "listeners page_scenario = []"
  by (simp_all add: page_scenario_def example_defs)

lemma textContent_w_text:
  assumes "x \<in> set (all_elements d)"
  shows "textContent (w_text x v d) x = nullable_DOMString v"
  using childNodes_set_children [OF assms]
  by (simp add: w_text_def textContent_def split: list.splits)

lemma scenario_click:
  assumes js: "js ''return 1+1'' = Inr return_1_plus_1" "js ''wUpdate($t)'' = Inr wUpdate_t"
    and d2: "document_order d2 = [1, 2]"
      "attributes (elements d2 1) = map_of [(''w-ref'', ''t''), (''w-text'', ''return 1+1'')]"
      "attributes (elements d2 2) = map_of [(''w-on:click'', ''wUpdate($t)'')]"
      "listeners d2 = [(2, ''click'', PlainListener ''click'' 2 ''wUpdate($t)'')]"
  shows "updateElement js (wUpdate_closure js n) 1 d2 = Some (Inr (), w_text 1 (Num 2) d2)"
    and "dispatchEvent js (wUpdate_closure js (Suc n)) (Event ''click'' 2 None) d2
         = Some (w_text 1 (Num 2) d2)"
proof -
  show u: "updateElement js (wUpdate_closure js n) 1 d2 = Some (Inr (), w_text 1 (Num 2) d2)"
    using js d2(2)
    by (simp add: updateElement_def AVAILABLE_DIRECTIVES_def evaluateString_def seq_def
        return_1_plus_1_def)
  have "filter (\<lambda>e. attributes (elements d2 e) ''w-ref'' = Some ''t'') (document_order d2) = [1]"
    using d2 by simp
  then have r: "collectRefs d2 ''$t'' = Some 1"
    by (simp add: collectRefs_lookup)
  have l: "listeners_for d2 2 ''click'' = [PlainListener ''click'' 2 ''wUpdate($t)'']"
    using d2(4) by (simp add: listeners_for_def)
  show "dispatchEvent js (wUpdate_closure js (Suc n)) (Event ''click'' 2 None) d2
         = Some (w_text 1 (Num 2) d2)"
    using js(2) r u
    by (simp add: dispatchEvent_def l handleEvent_def evaluateString_def seq_def wUpdate_t_def
        context_object_def report_unhandled_def)
qed

lemma scenario_register:
  assumes js: "js ''return 1+1'' = Inr return_1_plus_1" "js ''wUpdate($t)'' = Inr wUpdate_t"
  shows "register js (wUpdate_closure js n) Document page_scenario
       = Some (Inr (), addEventListener 2 ''click'' (PlainListener ''click'' 2 ''wUpdate($t)'')
                  (w_text 1 (Num 2) page_scenario))"
proof -
  have s: "scan page_scenario Document = [1, 2]"
    by (simp add: scan_defs page_scenario_def example_defs)
  have r1: "registerEventHandler 1 page_scenario = (Inr (), page_scenario)"
    using page_scenario_facts
    by (simp add: registerEventHandler_def AVAILABLE_EVENT_NAMES_def)
  have u1: "updateElement js (wUpdate_closure js n) 1 page_scenario
      = Some (Inr (), w_text 1 (Num 2) page_scenario)"
    using js page_scenario_facts
    by (simp add: updateElement_def AVAILABLE_DIRECTIVES_def evaluateString_def seq_def
        return_1_plus_1_def)
  have r2: "registerEventHandler 2 (w_text 1 (Num 2) page_scenario)
      = (Inr (), addEventListener 2 ''click'' (PlainListener ''click'' 2 ''wUpdate($t)'')
                  (w_text 1 (Num 2) page_scenario))"
    using page_scenario_facts
    by (simp add: registerEventHandler_def AVAILABLE_EVENT_NAMES_def)
  have u2: "updateElement js (wUpdate_closure js n) 2 d = Some (Inr (), d)"
    if "attributes (elements d 2) = map_of [(''w-on:click'', ''wUpdate($t)'')]" for d
    using that by (simp add: updateElement_def AVAILABLE_DIRECTIVES_def)
  show ?thesis
    using r1 u1 r2 u2 page_scenario_facts
    by (simp add: register_def s seq_def)
qed

lemma scenario_registered_page:
  fixes d1
  defines "d1 \<equiv> addEventListener 2 ''click'' (PlainListener ''click'' 2 ''wUpdate($t)'')
                  (w_text 1 (Num 2) page_scenario)"
  shows "document d1 = [Node 1 [Text ''2''], Node 2 []]"
    and "document_order d1 = [1, 2]"
    and "attributes (elements d1 1) = map_of [(''w-ref'', ''t''), (''w-text'', ''return 1+1'')]"
    and "attributes (elements d1 2) = map_of [(''w-on:click'', ''wUpdate($t)'')]"
    and "listeners d1 = [(2, ''click'', PlainListener ''click'' 2 ''wUpdate($t)'')]"
    and "textContent d1 1 = ''2''"
  using page_scenario_facts
  by (simp_all add: d1_def w_text_def tree_defs addEventListener_def digits.simps
      document_order_def)

text \<open>
  Claim C5, as the code has it: the attributes are \<open>w-ref\<close>, \<open>w-text\<close> and
  \<open>w-on:click\<close>. For every engine in which \<open>return 1+1\<close> returns 2 and \<open>wUpdate($t)\<close>
  calls the trigger on the element named \<open>t\<close>: the scan of the document sets the text of
  the first span to \<open>2\<close> and adds one click listener to the second; and on any later page
  with these elements in the document, these attributes and these listeners, a click on
  the second span does what \<open>updateElement\<close> on the first span does on that page, which
  evaluates the text directive there and sets the text to \<open>2\<close>.
\<close>

theorem scenario_text_then_click:
  assumes "js ''return 1+1'' = Inr return_1_plus_1"
    and "js ''wUpdate($t)'' = Inr wUpdate_t"
  shows "\<exists>d1. register js (wUpdate_closure js n) Document page_scenario = Some (Inr (), d1)
     \<and> textContent d1 1 = ''2''
     \<and> listeners d1 = [(2, ''click'', PlainListener ''click'' 2 ''wUpdate($t)'')]
     \<and> (\<forall>d2. document_order d2 = document_order d1
             \<and> (\<forall>e. attributes (elements d2 e) = attributes (elements d1 e))
             \<and> listeners d2 = listeners d1
          \<longrightarrow> dispatchEvent js (wUpdate_closure js (Suc n)) (Event ''click'' 2 None) d2
                = report_unhandled (updateElement js (wUpdate_closure js n) 1 d2)
            \<and> updateElement js (wUpdate_closure js n) 1 d2 = Some (Inr (), w_text 1 (Num 2) d2)
            \<and> textContent (w_text 1 (Num 2) d2) 1 = ''2'')"
proof -
  define d1 where "d1 = addEventListener 2 ''click'' (PlainListener ''click'' 2 ''wUpdate($t)'')
                  (w_text 1 (Num 2) page_scenario)"
  have reg: "register js (wUpdate_closure js n) Document page_scenario = Some (Inr (), d1)"
    unfolding d1_def using assms by (rule scenario_register)
  note d1 = scenario_registered_page [folded d1_def]
  have click: "dispatchEvent js (wUpdate_closure js (Suc n)) (Event ''click'' 2 None) d2
                = report_unhandled (updateElement js (wUpdate_closure js n) 1 d2)
            \<and> updateElement js (wUpdate_closure js n) 1 d2 = Some (Inr (), w_text 1 (Num 2) d2)
            \<and> textContent (w_text 1 (Num 2) d2) 1 = ''2''"
    if "document_order d2 = document_order d1"
       "\<forall>e. attributes (elements d2 e) = attributes (elements d1 e)"
       "listeners d2 = listeners d1" for d2
  proof -
    have d2: "document_order d2 = [1, 2]"
      "attributes (elements d2 1) = map_of [(''w-ref'', ''t''), (''w-text'', ''return 1+1'')]"
      "attributes (elements d2 2) = map_of [(''w-on:click'', ''wUpdate($t)'')]"
      "listeners d2 = [(2, ''click'', PlainListener ''click'' 2 ''wUpdate($t)'')]"
      using that d1 by simp_all
    have "1 \<in> set (all_elements d2)"
      using d2(1) by (auto simp: all_elements_def document_order_def)
    then have t: "textContent (w_text 1 (Num 2) d2) 1 = ''2''"
      by (simp add: textContent_w_text digits.simps)
    show ?thesis
      using scenario_click [OF assms d2, of n] t by (simp add: report_unhandled_def)
  qed
  show ?thesis
    using reg d1(5,6) click by blast
qed

text \<open>
  With the example engine: the scan sets the text to \<open>2\<close>; after the text has been changed
  by hand, a click on the second span sets it to \<open>2\<close> again.
\<close>

theorem scenario_text_then_click_witness:
  "\<exists>d1 d3. register example_js (wUpdate_closure example_js 0) Document page_scenario
        = Some (Inr (), d1)
     \<and> textContent d1 1 = ''2''
     \<and> textContent (w_text 1 (Str ''changed'') d1) 1 = ''changed''
     \<and> dispatchEvent example_js (wUpdate_closure example_js 1) (Event ''click'' 2 None)
          (w_text 1 (Str ''changed'') d1)
        = Some d3
     \<and> textContent d3 1 = ''2''"
proof -
  have 1: "example_js ''return 1+1'' = Inr return_1_plus_1"
    and 2: "example_js ''wUpdate($t)'' = Inr wUpdate_t"
    by (simp_all add: example_js_def)
  from scenario_text_then_click [OF 1 2, of 0]
  obtain d1 where *:
    "register example_js (wUpdate_closure example_js 0) Document page_scenario
       = Some (Inr (), d1)"
    "textContent d1 1 = ''2''"
    "\<forall>d2. document_order d2 = document_order d1
             \<and> (\<forall>e. attributes (elements d2 e) = attributes (elements d1 e))
             \<and> listeners d2 = listeners d1
          \<longrightarrow> dispatchEvent example_js (wUpdate_closure example_js (Suc 0))
                  (Event ''click'' 2 None) d2
                = report_unhandled (updateElement example_js (wUpdate_closure example_js 0) 1 d2)
            \<and> updateElement example_js (wUpdate_closure example_js 0) 1 d2
                = Some (Inr (), w_text 1 (Num 2) d2)
            \<and> textContent (w_text 1 (Num 2) d2) 1 = ''2''"
    by blast
  have d1: "d1 = addEventListener 2 ''click'' (PlainListener ''click'' 2 ''wUpdate($t)'')
                  (w_text 1 (Num 2) page_scenario)"
    using *(1) scenario_register [OF 1 2, of 0] by simp
  define d2 where "d2 = w_text 1 (Str ''changed'') d1"
  have changed: "textContent d2 1 = ''changed''"
    and same: "document_order d2 = document_order d1
      \<and> (\<forall>e. attributes (elements d2 e) = attributes (elements d1 e))
      \<and> listeners d2 = listeners d1"
    using page_scenario_facts
    by (simp_all add: d2_def d1 w_text_def tree_defs addEventListener_def digits.simps
        document_order_def)
  with *(3) have "dispatchEvent example_js (wUpdate_closure example_js (Suc 0))
                  (Event ''click'' 2 None) d2 = Some (w_text 1 (Num 2) d2)"
    and "textContent (w_text 1 (Num 2) d2) 1 = ''2''"
    by (simp_all add: report_unhandled_def)
  with *(1,2) changed show ?thesis
    unfolding d2_def by auto
qed

text \<open>
  Claim C5 as it is written fails: on the page with the attributes \<open>data-ref\<close>,
  \<open>data-text\<close> and \<open>data-on-click\<close> the scan finds no element, the text stays empty and
  a click does nothing.
\<close>

theorem scenario_data_attributes_counterexample:
  "register example_js (wUpdate_closure example_js 1) Document page_scenario_data
     = Some (Inr (), page_scenario_data)
   \<and> textContent page_scenario_data 1 = []
   \<and> dispatchEvent example_js (wUpdate_closure example_js 1) (Event ''click'' 2 None)
        page_scenario_data
     = Some page_scenario_data"
  by (simp add: register_def scan_defs page_scenario_data_def example_defs dispatchEvent_def
      listeners_for_def tree_defs)

subsection \<open>Order of evaluation\<close>

lemma registerEventHandler_loop_frame:
  "registerEventHandler_loop names elm d = (r, d') \<Longrightarrow>
     elements d' = elements d \<and> console d' = console d \<and> document d' = document d
     \<and> fresh d' = fresh d"
proof (induction names arbitrary: d)
  case Nil
  then show ?case by simp
next
  case (Cons a names)
  then show ?case
    by (auto split: option.splits if_splits)
qed

lemma registerEventHandler_frame:
  "registerEventHandler elm d = (r, d') \<Longrightarrow>
     elements d' = elements d \<and> console d' = console d \<and> document d' = document d
     \<and> fresh d' = fresh d"
  unfolding registerEventHandler_def by (rule registerEventHandler_loop_frame)

lemma console_error_simps [simp]:
  "elements (console_error code d) = elements d"
  "console (console_error code d) = console d @ [code]"
  "fresh (console_error code d) = fresh d"
  by (simp_all add: console_error_def)

lemma updateElement_loop_Cons:
  "updateElement_loop js wUpdate elm ((directiveName, directiveHandler) # entries) d
   = seq (directive js wUpdate elm directiveName directiveHandler)
       (\<lambda>_. updateElement_loop js wUpdate elm entries) d"
  by (simp add: directive_def seq_def split: option.splits sum.splits prod.splits)

lemma updateElement_loop_Nil:
  "updateElement_loop js wUpdate elm [] = (\<lambda>d. Some (Inr (), d))"
  by (rule ext) simp

lemma seq_return_unit:
  fixes m :: "dom \<Rightarrow> unit res"
  shows "seq m (\<lambda>_ d'. Some (Inr (), d')) d = m d"
  by (simp add: seq_def split: option.splits sum.splits prod.splits)

lemma updateElement_as_sequence:
  "updateElement js wUpdate elm d =
     seq (directive js wUpdate elm ''w-show'' w_show)
       (\<lambda>_. seq (directive js wUpdate elm ''w-value'' w_value)
         (\<lambda>_. seq (directive js wUpdate elm ''w-update'' w_update)
           (\<lambda>_. seq (directive js wUpdate elm ''w-text'' w_text)
             (\<lambda>_. directive js wUpdate elm ''w-html'' w_html)))) d"
  unfolding updateElement_def AVAILABLE_DIRECTIVES_def updateElement_loop_Cons
  by (simp only: updateElement_loop_Nil seq_return_unit)

lemma register_loop_run_all:
  "register_loop js wUpdate es d = run_all (map (register_element js wUpdate) es) d"
proof (induction es arbitrary: d)
  case Nil
  then show ?case by simp
next
  case (Cons e es)
  have "register_loop js wUpdate (e # es) d
      = seq (register_element js wUpdate e) (\<lambda>_. register_loop js wUpdate es) d"
    by (simp add: register_element_def seq_def split: option.splits sum.splits prod.splits)
  also have "\<dots> = seq (register_element js wUpdate e)
      (\<lambda>_. run_all (map (register_element js wUpdate) es)) d"
    by (simp add: seq_def Cons.IH split: option.splits sum.splits prod.splits)
  finally show ?case by simp
qed

lemma scan_Document:
  "scan d Document = filter (matches d (eventSelectors @ directiveSelectors)) (document_order d)"
  by (simp add: scan_def querySelectorAll_def)

lemma scan_Element:
  "scan d (Element x)
   = x # filter (matches d (eventSelectors @ directiveSelectors)) (descendants d x)"
  by (simp add: scan_def querySelectorAll_def)

lemma updateElement_tracing:
  "\<exists>d'. updateElement tracing_js wUpdate elm d = Some (Inr (), d')
      \<and> console d' = console d @ directive_codes d elm
      \<and> fresh d \<le> fresh d'
      \<and> (\<forall>e. e < fresh d \<longrightarrow> attributes (elements d' e) = attributes (elements d e))"
proof -
  have le: "fresh d \<le> fresh (w_html elm v d')" if "fresh d' = fresh d" for v d'
    using w_html_frame(1) [of d' elm v] that by simp
  have at: "attributes (elements (w_html elm v d') e) = attributes (elements d' e)"
    if "fresh d' = fresh d" "e < fresh d" for v d' e
    using w_html_frame(2) [of e d' elm v] that by simp
  show ?thesis
    by (simp add: updateElement_def AVAILABLE_DIRECTIVES_def directive_codes_def seq_def
        evaluateString_def tracing_js_def w_update_def List.map_filter_def le at
        split: option.splits)
qed

lemma directive_codes_cong:
  "attributes (elements d' e) = attributes (elements d e) \<Longrightarrow>
     directive_codes d' e = directive_codes d e"
  by (simp add: directive_codes_def)

lemma register_loop_tracing:
  "register_loop tracing_js wUpdate es d = Some (Inr (), d1) \<Longrightarrow> \<forall>e\<in>set es. e < fresh d \<Longrightarrow>
     console d1 = console d @ concat (map (directive_codes d) es)"
proof (induction es arbitrary: d)
  case Nil
  then show ?case by simp
next
  case (Cons x es)
  obtain r d' where reg: "registerEventHandler x d = (r, d')"
    by (cases "registerEventHandler x d")
  then have fr: "elements d' = elements d" "console d' = console d" "fresh d' = fresh d"
    using registerEventHandler_frame by blast+
  obtain d'' where upd: "updateElement tracing_js wUpdate x d' = Some (Inr (), d'')"
    "console d'' = console d' @ directive_codes d' x"
    "fresh d' \<le> fresh d''"
    "\<forall>e. e < fresh d' \<longrightarrow> attributes (elements d'' e) = attributes (elements d' e)"
    using updateElement_tracing by blast
  have r: "r = Inr ()" and rest: "register_loop tracing_js wUpdate es d'' = Some (Inr (), d1)"
    using Cons.prems(1) reg upd(1) by (auto simp: seq_def split: sum.splits)
  have below: "\<forall>e\<in>set es. e < fresh d''"
    using Cons.prems(2) fr(3) upd(3) by auto
  have "directive_codes d'' e = directive_codes d e" if "e \<in> set es" for e
    using that Cons.prems(2) upd(4) fr by (auto intro!: directive_codes_cong)
  then have same: "map (directive_codes d'') es = map (directive_codes d) es"
    by simp
  have x: "directive_codes d' x = directive_codes d x"
    using fr(1) by (simp add: directive_codes_def)
  from Cons.IH [OF rest below] show ?case
    using upd(2) fr(2) same x by simp
qed

lemma map_filter_no_attribute:
  "\<not> list_ex (\<lambda>a. attrs a \<noteq> None) (map fst entries) \<Longrightarrow>
     List.map_filter (\<lambda>(directiveName, directiveHandler). attrs directiveName) entries = []"
  by (induction entries) (auto simp: List.map_filter_def)

lemma not_matches_no_codes:
  "\<not> matches d (eventSelectors @ directiveSelectors) e \<Longrightarrow> directive_codes d e = []"
  unfolding matches_def directiveSelectors_def directive_codes_def list_ex_append
  using map_filter_no_attribute [of "attributes (elements d e)" AVAILABLE_DIRECTIVES] by blast

lemma concat_map_filter_matches:
  "concat (map (directive_codes d) (filter (matches d (eventSelectors @ directiveSelectors)) xs))
   = concat (map (directive_codes d) xs)"
  by (induction xs) (simp_all add: not_matches_no_codes)

lemma register_Document_tracing:
  assumes "register tracing_js wUpdate Document d = Some (Inr (), d1)"
    and "\<forall>e\<in>set (document_order d). e < fresh d"
  shows "console d1 = console d @ concat (map (directive_codes d) (document_order d))"
proof -
  have "register_loop tracing_js wUpdate (scan d Document) d = Some (Inr (), d1)"
    using assms(1) by (simp only: register_def)
  moreover have "\<forall>e\<in>set (scan d Document). e < fresh d"
    using assms(2) by (simp add: scan_Document)
  ultimately have "console d1 = console d @ concat (map (directive_codes d) (scan d Document))"
    by (rule register_loop_tracing)
  then show ?thesis
    by (simp only: scan_Document concat_map_filter_matches)
qed

lemma register_Element_tracing:
  assumes "register tracing_js wUpdate (Element x) d = Some (Inr (), d1)"
    and "\<forall>e\<in>set (x # descendants d x). e < fresh d"
  shows "console d1 = console d @ concat (map (directive_codes d) (x # descendants d x))"
proof -
  have "register_loop tracing_js wUpdate (scan d (Element x)) d = Some (Inr (), d1)"
    using assms(1) by (simp only: register_def)
  moreover have "\<forall>e\<in>set (scan d (Element x)). e < fresh d"
    using assms(2) by (simp add: scan_Element)
  ultimately have "console d1
      = console d @ concat (map (directive_codes d) (scan d (Element x)))"
    by (rule register_loop_tracing)
  then show ?thesis
    by (simp add: scan_Element concat_map_filter_matches)
qed

text \<open>
  Claim C7. For every engine, \<open>updateElement\<close> is the five rounds \<open>w-show\<close>, \<open>w-value\<close>,
  \<open>w-update\<close>, \<open>w-text\<close>, \<open>w-html\<close> one after the other, each evaluating and applying its
  directive if the element carries it. For every engine, \<open>register\<close> of the document is
  the rounds of the elements that carry an event binding or a directive on the page as it
  is when \<open>register\<close> is called, in document order of that page, one after the other, each
  round binding the events of its element and then updating it; \<open>register\<close> of an element
  is the round of that element and then the rounds of those of its descendants, chosen and
  ordered in the same way. The list of rounds is fixed by the page at the call: what a
  round does to the page does not change which rounds follow.

  With the engine whose snippets print their own source, the console shows the order: one
  update prints the snippets of the element in the order of the table; on a page whose
  elements have handles below the next unused one, a \<open>register\<close> of the document that
  returns has printed the snippets of all elements in document order as it was at the
  call, and a \<open>register\<close> of an element, those of the element and then of its descendants.
\<close>

theorem directives_in_table_order_elements_in_document_order:
  "updateElement js wUpdate elm d =
     seq (directive js wUpdate elm ''w-show'' w_show)
       (\<lambda>_. seq (directive js wUpdate elm ''w-value'' w_value)
         (\<lambda>_. seq (directive js wUpdate elm ''w-update'' w_update)
           (\<lambda>_. seq (directive js wUpdate elm ''w-text'' w_text)
             (\<lambda>_. directive js wUpdate elm ''w-html'' w_html)))) d
   \<and> register js wUpdate Document d
     = run_all (map (register_element js wUpdate)
         (filter (matches d (eventSelectors @ directiveSelectors)) (document_order d))) d
   \<and> register js wUpdate (Element x) d
     = run_all (map (register_element js wUpdate)
         (x # filter (matches d (eventSelectors @ directiveSelectors)) (descendants d x))) d
   \<and> (\<exists>d'. updateElement tracing_js wUpdate elm d = Some (Inr (), d')
          \<and> console d' = console d @ directive_codes d elm)
   \<and> ((\<forall>e\<in>set (document_order d). e < fresh d)
        \<and> register tracing_js wUpdate Document d = Some (Inr (), d1)
        \<longrightarrow> console d1 = console d @ concat (map (directive_codes d) (document_order d)))
   \<and> ((\<forall>e\<in>set (x # descendants d x). e < fresh d)
        \<and> register tracing_js wUpdate (Element x) d = Some (Inr (), d2)
        \<longrightarrow> console d2 = console d @ concat (map (directive_codes d) (x # descendants d x)))"
proof (intro conjI impI)
  show "updateElement js wUpdate elm d =
     seq (directive js wUpdate elm ''w-show'' w_show)
       (\<lambda>_. seq (directive js wUpdate elm ''w-value'' w_value)
         (\<lambda>_. seq (directive js wUpdate elm ''w-update'' w_update)
           (\<lambda>_. seq (directive js wUpdate elm ''w-text'' w_text)
             (\<lambda>_. directive js wUpdate elm ''w-html'' w_html)))) d"
    by (rule updateElement_as_sequence)
next
  show "register js wUpdate Document d
     = run_all (map (register_element js wUpdate)
         (filter (matches d (eventSelectors @ directiveSelectors)) (document_order d))) d"
    by (simp only: register_def scan_Document register_loop_run_all)
next
  show "register js wUpdate (Element x) d
     = run_all (map (register_element js wUpdate)
         (x # filter (matches d (eventSelectors @ directiveSelectors)) (descendants d x))) d"
    by (simp only: register_def scan_Element register_loop_run_all)
next
  show "\<exists>d'. updateElement tracing_js wUpdate elm d = Some (Inr (), d')
          \<and> console d' = console d @ directive_codes d elm"
    using updateElement_tracing [of wUpdate elm d] by blast
next
  assume "(\<forall>e\<in>set (document_order d). e < fresh d)
        \<and> register tracing_js wUpdate Document d = Some (Inr (), d1)"
  then show "console d1 = console d @ concat (map (directive_codes d) (document_order d))"
    using register_Document_tracing by blast
next
  assume "(\<forall>e\<in>set (x # descendants d x). e < fresh d)
        \<and> register tracing_js wUpdate (Element x) d = Some (Inr (), d2)"
  then show "console d2 = console d @ concat (map (directive_codes d) (x # descendants d x))"
    using register_Element_tracing by blast
qed

lemma page_nested_facts:
  "document page_nested = [Node 1 [Node 2 []], Node 3 []]"
  "detached page_nested = []"
  "attributes (elements page_nested 1) = map_of [(''w-text'', ''t1'')]"
  "attributes (elements page_nested 2) = map_of [(''w-text'', ''t2''), (''w-on:click'', ''c2'')]"
  "attributes (elements page_nested 3) = map_of [(''w-on:click'', ''c3'')]"
  "listeners page_nested = []"
  "console page_nested = []"
  "fresh page_nested = 100"
  by (simp_all add: page_nested_def example_defs)

text \<open>
  On the page with a div, element 1, that carries a text directive, a span below it,
  element 2, with a click binding and a text directive, and then element 3 with a click
  binding only: the rounds are those of 1, 2 and 3. The round of element 1 replaces its
  children, so element 2 is out of the document when its round comes; the round still
  runs: the click of element 2 is bound before that of element 3, and the text directive
  of element 2 is evaluated and applied after that of element 1.
\<close>

theorem directives_in_table_order_elements_in_document_order_witness:
  "\<exists>d1. register tracing_js (wUpdate_closure tracing_js 0) Document page_nested = Some (Inr (), d1)
      \<and> document_order page_nested = [1, 2, 3]
      \<and> document_order d1 = [1, 3]
      \<and> console d1 = [''t1'', ''t2'']
      \<and> listeners d1 = [(2, ''click'', PlainListener ''click'' 2 ''c2''),
                        (3, ''click'', PlainListener ''click'' 3 ''c3'')]
      \<and> textContent d1 1 = ''t1''
      \<and> textContent d1 2 = ''t2''"
proof -
  define d1 where "d1 =
    addEventListener 3 ''click'' (PlainListener ''click'' 3 ''c3'')
      (w_text 2 (Str ''t2'') (console_error ''t2''
        (addEventListener 2 ''click'' (PlainListener ''click'' 2 ''c2'')
          (w_text 1 (Str ''t1'') (console_error ''t1'' page_nested)))))"
  note order = directives_in_table_order_elements_in_document_order
    [where js = tracing_js and wUpdate = "wUpdate_closure tracing_js 0" and d = page_nested
       and ?d1.0 = d1]
  have o: "document_order page_nested = [1, 2, 3]"
    using page_nested_facts by (simp add: document_order_def)
  have m: "filter (matches page_nested (eventSelectors @ directiveSelectors)) [1, 2, 3] = [1, 2, 3]"
    using page_nested_facts
    by (simp add: matches_def eventSelectors_def directiveSelectors_def
        AVAILABLE_EVENT_NAMES_def AVAILABLE_DIRECTIVES_def)
  have "register tracing_js (wUpdate_closure tracing_js 0) Document page_nested
      = run_all (map (register_element tracing_js (wUpdate_closure tracing_js 0)) [1, 2, 3])
          page_nested"
    using order by (simp only: o m)
  also have "\<dots> = Some (Inr (), d1)"
    using page_nested_facts
    by (simp add: d1_def register_element_def seq_def registerEventHandler_def
        AVAILABLE_EVENT_NAMES_def updateElement_def AVAILABLE_DIRECTIVES_def evaluateString_def
        tracing_js_def)
  finally have r: "register tracing_js (wUpdate_closure tracing_js 0) Document page_nested
      = Some (Inr (), d1)" .
  have codes: "concat (map (directive_codes page_nested) [1, 2, 3]) = [''t1'', ''t2'']"
    using page_nested_facts
    by (simp add: directive_codes_def AVAILABLE_DIRECTIVES_def List.map_filter_def)
  have c: "console d1 = [''t1'', ''t2'']"
    using order r o codes page_nested_facts by simp
  have rest: "document_order d1 = [1, 3]"
    "listeners d1 = [(2, ''click'', PlainListener ''click'' 2 ''c2''),
                     (3, ''click'', PlainListener ''click'' 3 ''c3'')]"
    "textContent d1 1 = ''t1''" "textContent d1 2 = ''t2''"
    using page_nested_facts
    by (simp_all add: d1_def w_text_def tree_defs addEventListener_def console_error_def
        document_order_def)
  show ?thesis
    using r o c rest by blast
qed

subsection \<open>Updating twice\<close>

lemma pure_round_loop:
  "pure_round js wUpdate elm vals entries d \<Longrightarrow>
     updateElement_loop js wUpdate elm entries d = Some (Inr (), apply_all elm vals entries d)"
proof (induction entries arbitrary: d)
  case Nil
  then show ?case by simp
next
  case (Cons x entries)
  then show ?case
    by (cases x) (auto simp: seq_def split: option.splits)
qed

lemma shape_cong:
  "(\<And>e. e \<in> set (preorder t) \<Longrightarrow> store1 e = store2 e) \<Longrightarrow> shape store1 t = shape store2 t"
proof (induction t)
  case (Node e kids)
  have "map (shape store1) kids = map (shape store2) kids"
    by (rule map_cong [OF refl]) (use Node in auto)
  then show ?case using Node.prems by simp
next
  case (Text s)
  then show ?case by simp
qed

lemma all_elements_store [simp]:
  "all_elements (d\<lparr>elements := store, fresh := n\<rparr>) = all_elements d"
  "childNodes (d\<lparr>elements := store, fresh := n\<rparr>) x = childNodes d x"
  by (simp_all add: all_elements_def childNodes_def)

lemma modify_frames [simp]:
  "document (modify elm f d) = document d"
  "detached (modify elm f d) = detached d"
  "fresh (modify elm f d) = fresh d"
  "parser (modify elm f d) = parser d"
  "serializer (modify elm f d) = serializer d"
  by (simp_all add: modify_def)

lemma w_text_outputs:
  assumes "elm \<in> set (all_elements d)"
  shows "elm \<in> set (all_elements (w_text elm v d))"
    and "textContent (w_text elm v d) elm = nullable_DOMString v"
    and "innerHTML (w_text elm v d) elm
       = serializer d (case nullable_DOMString v of [] \<Rightarrow> [] | c # cs \<Rightarrow> [MText (c # cs)])"
    and "parser (w_text elm v d) = parser d"
    and "serializer (w_text elm v d) = serializer d"
proof -
  show "elm \<in> set (all_elements (w_text elm v d))"
    unfolding w_text_def using assms by (rule all_elements_set_children)
  show "textContent (w_text elm v d) elm = nullable_DOMString v"
    using assms by (rule textContent_w_text)
  show "innerHTML (w_text elm v d) elm
       = serializer d (case nullable_DOMString v of [] \<Rightarrow> [] | c # cs \<Rightarrow> [MText (c # cs)])"
    using childNodes_set_children [OF assms]
    by (simp add: w_text_def innerHTML_def split: list.splits)
  show "parser (w_text elm v d) = parser d" "serializer (w_text elm v d) = serializer d"
    by (simp_all add: w_text_def)
qed

lemma w_html_outputs:
  assumes "elm \<in> set (all_elements d)"
  shows "elm \<in> set (all_elements (w_html elm v d))"
    and "textContent (w_html elm v d) elm
       = concat (map markup_text (parser d elm (null_to_empty_DOMString v)))"
    and "innerHTML (w_html elm v d) elm = serializer d (parser d elm (null_to_empty_DOMString v))"
    and "parser (w_html elm v d) = parser d"
    and "serializer (w_html elm v d) = serializer d"
proof -
  let ?ms = "parser d elm (null_to_empty_DOMString v)"
  obtain new n store where th: "thread (map adopt ?ms) (fresh d, elements d) = (new, n, store)"
    by (cases "thread (map adopt ?ms) (fresh d, elements d)") auto
  let ?d = "d\<lparr>elements := store, fresh := n\<rparr>"
  have h: "w_html elm v d = set_children elm new ?d"
    using th by (simp add: w_html_def set_markup_def)
  have in_d: "elm \<in> set (all_elements ?d)"
    using assms by simp
  have kids: "childNodes (w_html elm v d) elm = new"
    unfolding h using in_d by (rule childNodes_set_children)
  have store: "elements (w_html elm v d) = store"
    unfolding h by simp
  have shape: "map (shape store) new = ?ms"
    using th by (rule thread_adopt_adopted(3))
  show "elm \<in> set (all_elements (w_html elm v d))"
    unfolding h using in_d by (rule all_elements_set_children)
  show "parser (w_html elm v d) = parser d" "serializer (w_html elm v d) = serializer d"
    unfolding h by simp_all
  then show "innerHTML (w_html elm v d) elm = serializer d ?ms"
    by (simp add: innerHTML_def kids store shape)
  have "textContent (w_html elm v d) elm
      = concat (map markup_text (map (shape store) new))"
    by (simp only: textContent_shape kids store)
  then show "textContent (w_html elm v d) elm = concat (map markup_text ?ms)"
    by (simp only: shape)
qed

text \<open>
  The effect of one update with given results, in three steps: the handlers of \<open>w-show\<close>,
  \<open>w-value\<close> and \<open>w-update\<close> write properties of the element only; then the text; then the
  markup.
\<close>

lemma apply_all_steps:
  "\<exists>ds dt.
     document ds = document d \<and> detached ds = detached d \<and> fresh ds = fresh d
     \<and> parser ds = parser d \<and> serializer ds = serializer d
     \<and> (\<forall>e. attributes (elements ds e) = attributes (elements d e))
     \<and> (\<forall>e. e \<noteq> elm \<longrightarrow> elements ds e = elements d e)
     \<and> input_value (elements ds elm)
       = (if attributes (elements d elm) ''w-value'' = None then input_value (elements d elm)
          else null_to_empty_DOMString (vals ''w-value''))
     \<and> dt = (if attributes (elements d elm) ''w-text'' = None then ds
             else w_text elm (vals ''w-text'') ds)
     \<and> apply_all elm vals AVAILABLE_DIRECTIVES d
       = (if attributes (elements d elm) ''w-html'' = None then dt
          else w_html elm (vals ''w-html'') dt)"
proof -
  define a where "a = attributes (elements d elm)"
  define d_show where "d_show = (if a ''w-show'' = None then d else w_show elm (vals ''w-show'') d)"
  define ds where "ds = (if a ''w-value'' = None then d_show
      else w_value elm (vals ''w-value'') d_show)"
  define dt where "dt = (if a ''w-text'' = None then ds else w_text elm (vals ''w-text'') ds)"
  have 1: "document d_show = document d" "detached d_show = detached d" "fresh d_show = fresh d"
    "parser d_show = parser d" "serializer d_show = serializer d"
    "input_value (elements d_show elm) = input_value (elements d elm)"
    by (auto simp: d_show_def w_show_def Let_def modify_def split: option.splits)
  have e1: "attributes (elements d_show e) = attributes (elements d e)"
    "e \<noteq> elm \<Longrightarrow> elements d_show e = elements d e" for e
    by (auto simp: d_show_def w_show_def Let_def modify_def split: option.splits)
  have 2: "document ds = document d" "detached ds = detached d" "fresh ds = fresh d"
    "parser ds = parser d" "serializer ds = serializer d"
    "input_value (elements ds elm)
       = (if a ''w-value'' = None then input_value (elements d elm)
          else null_to_empty_DOMString (vals ''w-value''))"
    using 1 by (auto simp: ds_def w_value_def modify_def)
  have e2: "attributes (elements ds e) = attributes (elements d e)"
    "e \<noteq> elm \<Longrightarrow> elements ds e = elements d e" for e
    using e1 [of e] by (auto simp: ds_def w_value_def modify_def)
  have 3: "attributes (elements dt elm) = a"
    using e2(1) [of elm] by (simp add: dt_def a_def)
  have "apply_all elm vals AVAILABLE_DIRECTIVES d
       = (if a ''w-html'' = None then dt else w_html elm (vals ''w-html'') dt)"
    using e1(1) [of elm] e2(1) [of elm] 3
    by (auto simp: AVAILABLE_DIRECTIVES_def w_update_def a_def d_show_def ds_def dt_def
        split: option.splits)
  with 2 e2 show ?thesis
    unfolding a_def [symmetric] using dt_def by blast
qed

lemma apply_all_outputs:
  fixes d elm vals
  defines "a \<equiv> attributes (elements d elm)"
    and "d1 \<equiv> apply_all elm vals AVAILABLE_DIRECTIVES d"
  assumes "elm \<in> set (all_elements d)" and "elm < fresh d"
  shows "elm \<in> set (all_elements d1)" and "elm < fresh d1"
    and "attributes (elements d1 elm) = a"
    and "parser d1 = parser d" and "serializer d1 = serializer d"
    and "input_value (elements d1 elm)
       = (if a ''w-value'' = None then input_value (elements d elm)
          else null_to_empty_DOMString (vals ''w-value''))"
    and "a ''w-html'' \<noteq> None \<Longrightarrow>
          textContent d1 elm
            = concat (map markup_text (parser d elm (null_to_empty_DOMString (vals ''w-html''))))
          \<and> innerHTML d1 elm
            = serializer d (parser d elm (null_to_empty_DOMString (vals ''w-html'')))"
    and "a ''w-html'' = None \<Longrightarrow> a ''w-text'' \<noteq> None \<Longrightarrow>
          textContent d1 elm = nullable_DOMString (vals ''w-text'')
          \<and> innerHTML d1 elm
            = serializer d (case nullable_DOMString (vals ''w-text'') of
                              [] \<Rightarrow> [] | c # cs \<Rightarrow> [MText (c # cs)])"
    and "a ''w-html'' = None \<Longrightarrow> a ''w-text'' = None \<Longrightarrow>
          childNodes d1 elm = childNodes d elm
          \<and> (\<forall>e. e \<noteq> elm \<longrightarrow> elements d1 e = elements d e)"
proof -
  obtain ds dt where s:
    "document ds = document d" "detached ds = detached d" "fresh ds = fresh d"
    "parser ds = parser d" "serializer ds = serializer d"
    "\<And>e. attributes (elements ds e) = attributes (elements d e)"
    "\<And>e. e \<noteq> elm \<Longrightarrow> elements ds e = elements d e"
    "input_value (elements ds elm)
       = (if a ''w-value'' = None then input_value (elements d elm)
          else null_to_empty_DOMString (vals ''w-value''))"
    and dt: "dt = (if a ''w-text'' = None then ds else w_text elm (vals ''w-text'') ds)"
    and d1: "d1 = (if a ''w-html'' = None then dt else w_html elm (vals ''w-html'') dt)"
    unfolding a_def d1_def using apply_all_steps [of d elm vals] by blast
  have in_ds: "elm \<in> set (all_elements ds)"
    using assms(3) s(1,2) by (simp add: all_elements_def)
  have kids_ds: "childNodes ds elm = childNodes d elm"
    using s(1,2) by (simp add: childNodes_def)
  have in_dt: "elm \<in> set (all_elements dt)"
    using in_ds w_text_outputs(1) [OF in_ds] by (simp add: dt)
  have t: "elements dt = elements ds" "fresh dt = fresh ds" "parser dt = parser d"
    "serializer dt = serializer d"
    using s(4,5) w_text_outputs(4,5) [OF in_ds] by (simp_all add: dt)
  have below: "elm < fresh dt"
    using assms(4) t(2) s(3) by simp
  show "elm \<in> set (all_elements d1)"
    using in_dt w_html_outputs(1) [OF in_dt] by (simp add: d1)
  show "elm < fresh d1"
    using below w_html_frame(1) [of dt elm "vals ''w-html''"] by (simp add: d1)
  have at_elm: "elements d1 elm = elements ds elm"
    using below w_html_frame(2) [of elm dt elm "vals ''w-html''"] t(1) by (simp add: d1)
  show "attributes (elements d1 elm) = a"
    using at_elm s(6) [of elm] by (simp add: a_def)
  show "parser d1 = parser d" "serializer d1 = serializer d"
    using t(3,4) w_html_outputs(4,5) [OF in_dt] by (simp_all add: d1)
  show "input_value (elements d1 elm)
       = (if a ''w-value'' = None then input_value (elements d elm)
          else null_to_empty_DOMString (vals ''w-value''))"
    using at_elm s(8) by simp
  show "textContent d1 elm
            = concat (map markup_text (parser d elm (null_to_empty_DOMString (vals ''w-html''))))
          \<and> innerHTML d1 elm
            = serializer d (parser d elm (null_to_empty_DOMString (vals ''w-html'')))"
    if "a ''w-html'' \<noteq> None"
    using that w_html_outputs(2,3) [OF in_dt] t(3,4) by (auto simp: d1)
  show "textContent d1 elm = nullable_DOMString (vals ''w-text'')
          \<and> innerHTML d1 elm
            = serializer d (case nullable_DOMString (vals ''w-text'') of
                              [] \<Rightarrow> [] | c # cs \<Rightarrow> [MText (c # cs)])"
    if "a ''w-html'' = None" "a ''w-text'' \<noteq> None"
    using that w_text_outputs(2,3) [OF in_ds] s(5) by (auto simp: d1 dt)
  show "childNodes d1 elm = childNodes d elm
          \<and> (\<forall>e. e \<noteq> elm \<longrightarrow> elements d1 e = elements d e)"
    if "a ''w-html'' = None" "a ''w-text'' = None"
    using that kids_ds s(7) by (simp add: d1 dt)
qed

text \<open>
  Claim C6, as the code has it. Take an element of the page (somewhere in its trees, with
  a handle below the next unused one, and not below itself). Suppose that in a first
  update every directive snippet of the element returns without an effect of its own, that
  in a second update, on the page the first one leaves, every snippet does so again, and
  that the snippets of \<open>w-value\<close>, \<open>w-text\<close> and \<open>w-html\<close> return in the second update what
  they returned in the first. Then the update trigger on the element returns, it returns
  again on the page it leaves, calling it twice is calling it on the element twice, and
  after the second update the element's \<open>textContent\<close>, \<open>innerHTML\<close> and \<open>value\<close> are
  what they were after the first. (The pages themselves can differ: the elements that
  \<open>w-html\<close> creates are new ones each time, and \<open>w-show\<close> may toggle.)
\<close>

theorem update_twice_same_text_html_value:
  assumes "elm \<in> set (all_elements d)" and "elm < fresh d"
    and "elm \<notin> set (descendants d elm)"
    and "pure_round js wUpdate elm vals1 AVAILABLE_DIRECTIVES d"
    and "pure_round js wUpdate elm vals2 AVAILABLE_DIRECTIVES
           (apply_all elm vals1 AVAILABLE_DIRECTIVES d)"
    and "vals2 ''w-value'' = vals1 ''w-value''"
    and "vals2 ''w-text'' = vals1 ''w-text''"
    and "vals2 ''w-html'' = vals1 ''w-html''"
  shows "\<exists>d1 d2. updateElements js wUpdate [Elem elm] d = Some (Inr (), d1)
     \<and> updateElements js wUpdate [Elem elm] d1 = Some (Inr (), d2)
     \<and> updateElements js wUpdate [Elem elm, Elem elm] d = Some (Inr (), d2)
     \<and> textContent d2 elm = textContent d1 elm
     \<and> innerHTML d2 elm = innerHTML d1 elm
     \<and> input_value (elements d2 elm) = input_value (elements d1 elm)"
proof -
  define a where "a = attributes (elements d elm)"
  define d1 where "d1 = apply_all elm vals1 AVAILABLE_DIRECTIVES d"
  define d2 where "d2 = apply_all elm vals2 AVAILABLE_DIRECTIVES d1"
  have first: "updateElement js wUpdate elm d = Some (Inr (), d1)"
    unfolding updateElement_def d1_def using assms(4) by (rule pure_round_loop)
  have second: "updateElement js wUpdate elm d1 = Some (Inr (), d2)"
    unfolding updateElement_def d2_def d1_def using assms(5) by (rule pure_round_loop)
  have w1: "elm \<in> set (all_elements d1)" "elm < fresh d1" "attributes (elements d1 elm) = a"
    "parser d1 = parser d" "serializer d1 = serializer d"
    using apply_all_outputs(1-5) [OF assms(1,2), of vals1] by (simp_all add: d1_def a_def)
  have w2: "serializer d2 = serializer d"
    using apply_all_outputs(5) [OF w1(1,2), of vals2] w1(5) by (simp add: d2_def)
  have v1: "input_value (elements d1 elm)
       = (if a ''w-value'' = None then input_value (elements d elm)
          else null_to_empty_DOMString (vals1 ''w-value''))"
    using apply_all_outputs(6) [OF assms(1,2), of vals1] by (simp add: d1_def a_def)
  have v2: "input_value (elements d2 elm)
       = (if a ''w-value'' = None then input_value (elements d1 elm)
          else null_to_empty_DOMString (vals2 ''w-value''))"
    using apply_all_outputs(6) [OF w1(1,2), of vals2] w1(3) by (simp add: d2_def)
  have same_value: "input_value (elements d2 elm) = input_value (elements d1 elm)"
    using v1 v2 assms(6) by simp
  consider (with_html) "a ''w-html'' \<noteq> None"
    | (with_text) "a ''w-html'' = None" "a ''w-text'' \<noteq> None"
    | (neither) "a ''w-html'' = None" "a ''w-text'' = None"
    by blast
  then have "textContent d2 elm = textContent d1 elm \<and> innerHTML d2 elm = innerHTML d1 elm"
  proof cases
    case with_html
    have "textContent d1 elm
            = concat (map markup_text (parser d elm (null_to_empty_DOMString (vals1 ''w-html''))))
          \<and> innerHTML d1 elm
            = serializer d (parser d elm (null_to_empty_DOMString (vals1 ''w-html'')))"
      using apply_all_outputs(7) [OF assms(1,2), of vals1] with_html by (simp add: d1_def a_def)
    moreover have "textContent d2 elm
            = concat (map markup_text (parser d1 elm (null_to_empty_DOMString (vals2 ''w-html''))))
          \<and> innerHTML d2 elm
            = serializer d1 (parser d1 elm (null_to_empty_DOMString (vals2 ''w-html'')))"
      using apply_all_outputs(7) [OF w1(1,2), of vals2] with_html w1(3) by (simp add: d2_def)
    ultimately show ?thesis
      using w1(4,5) assms(8) by simp
  next
    case with_text
    have "textContent d1 elm = nullable_DOMString (vals1 ''w-text'')
          \<and> innerHTML d1 elm
            = serializer d (case nullable_DOMString (vals1 ''w-text'') of
                              [] \<Rightarrow> [] | c # cs \<Rightarrow> [MText (c # cs)])"
      using apply_all_outputs(8) [OF assms(1,2), of vals1] with_text by (simp add: d1_def a_def)
    moreover have "textContent d2 elm = nullable_DOMString (vals2 ''w-text'')
          \<and> innerHTML d2 elm
            = serializer d1 (case nullable_DOMString (vals2 ''w-text'') of
                              [] \<Rightarrow> [] | c # cs \<Rightarrow> [MText (c # cs)])"
      using apply_all_outputs(8) [OF w1(1,2), of vals2] with_text w1(3) by (simp add: d2_def)
    ultimately show ?thesis
      using w1(5) assms(7) by simp
  next
    case neither
    have k1: "childNodes d1 elm = childNodes d elm"
      and e1: "\<forall>e. e \<noteq> elm \<longrightarrow> elements d1 e = elements d e"
      using apply_all_outputs(9) [OF assms(1,2), of vals1] neither by (simp_all add: d1_def a_def)
    have k2: "childNodes d2 elm = childNodes d1 elm"
      and e2: "\<forall>e. e \<noteq> elm \<longrightarrow> elements d2 e = elements d1 e"
      using apply_all_outputs(9) [OF w1(1,2), of vals2] neither w1(3) by (simp_all add: d2_def)
    have "shape (elements d2) k = shape (elements d1) k" if "k \<in> set (childNodes d elm)" for k
    proof (rule shape_cong)
      fix e assume "e \<in> set (preorder k)"
      then have "e \<in> set (descendants d elm)"
        using that by (auto simp: descendants_def)
      then have "e \<noteq> elm"
        using assms(3) by auto
      then show "elements d2 e = elements d1 e"
        using e2 by simp
    qed
    then have "map (shape (elements d2)) (childNodes d elm)
        = map (shape (elements d1)) (childNodes d elm)"
      by simp
    then have "innerHTML d2 elm = innerHTML d1 elm"
      unfolding innerHTML_def k1 k2 w1(5) w2 by (rule arg_cong)
    then show ?thesis
      using k1 k2 by (simp add: textContent_def)
  qed
  then show ?thesis
    using first second same_value by (auto simp: seq_def)
qed

lemma page_markup_facts:
  "document page_markup = [Node 1 [Node 2 []]]"
  "detached page_markup = []"
  "fresh page_markup = 100"
  "parser page_markup = (\<lambda>x s. [MElem blank_element [MText s]])"
  "serializer page_markup = (\<lambda>ms. concat (map markup_text ms))"
  "attributes (elements page_markup 1)
     = map_of [(''w-value'', ''return 1+1''), (''w-text'', ''return 1+1''),
               (''w-html'', ''return 1+1'')]"
  by (simp_all add: page_markup_def blank_page_def with_attributes_def)

lemma evaluateString_return_1_plus_1:
  "evaluateString example_js wUpdate ''return 1+1'' elm None d = Some (Inr (Num 2), d)"
  by (simp add: evaluateString_def example_js_def return_1_plus_1_def)

text \<open>
  An element with the three directives, each \<open>return 1+1\<close>, on a page whose parser wraps
  the text in a new element: both updates leave the text \<open>2\<close> and the value \<open>2\<close>, the
  first below the new element 100 and the second below the new element 101.
\<close>

theorem update_twice_same_text_html_value_witness:
  "\<exists>d1 d2. updateElements example_js (wUpdate_closure example_js 0) [Elem 1] page_markup
          = Some (Inr (), d1)
     \<and> updateElements example_js (wUpdate_closure example_js 0) [Elem 1] d1 = Some (Inr (), d2)
     \<and> updateElements example_js (wUpdate_closure example_js 0) [Elem 1, Elem 1] page_markup
          = Some (Inr (), d2)
     \<and> textContent d2 1 = textContent d1 1
     \<and> innerHTML d2 1 = innerHTML d1 1
     \<and> input_value (elements d2 1) = input_value (elements d1 1)
     \<and> textContent d1 1 = ''2''
     \<and> input_value (elements d1 1) = ''2''
     \<and> childNodes d1 1 = [Node 100 [Text ''2'']]
     \<and> childNodes d2 1 = [Node 101 [Text ''2'']]"
proof -
  let ?w = "wUpdate_closure example_js 0"
  let ?vals = "\<lambda>k::string. Num 2"
  define c1 where "c1 = w_html 1 (Num 2) (w_text 1 (Num 2) (w_value 1 (Num 2) page_markup))"
  define c2 where "c2 = w_html 1 (Num 2) (w_text 1 (Num 2) (w_value 1 (Num 2) c1))"
  have a: "apply_all 1 ?vals AVAILABLE_DIRECTIVES page_markup = c1"
    using page_markup_facts by (simp add: AVAILABLE_DIRECTIVES_def c1_def)
  have h1: "1 \<in> set (all_elements page_markup)"
    and h2: "1 < fresh page_markup"
    and h3: "1 \<notin> set (descendants page_markup 1)"
    using page_markup_facts by (simp_all add: all_elements_def descendants_def childNodes_def)
  have a1: "attributes (elements c1 1)
     = map_of [(''w-value'', ''return 1+1''), (''w-text'', ''return 1+1''),
               (''w-html'', ''return 1+1'')]"
    using apply_all_outputs(3) [OF h1 h2, of ?vals] page_markup_facts(6) by (simp only: a)
  have h4: "pure_round example_js ?w 1 ?vals AVAILABLE_DIRECTIVES page_markup"
    using page_markup_facts
    by (simp add: AVAILABLE_DIRECTIVES_def evaluateString_return_1_plus_1)
  have h5: "pure_round example_js ?w 1 ?vals AVAILABLE_DIRECTIVES
      (apply_all 1 ?vals AVAILABLE_DIRECTIVES page_markup)"
    unfolding a using a1
    by (simp add: AVAILABLE_DIRECTIVES_def evaluateString_return_1_plus_1)
  from update_twice_same_text_html_value [OF h1 h2 h3 h4 h5]
  obtain d1 d2 where *:
    "updateElements example_js ?w [Elem 1] page_markup = Some (Inr (), d1)"
    "updateElements example_js ?w [Elem 1] d1 = Some (Inr (), d2)"
    "updateElements example_js ?w [Elem 1, Elem 1] page_markup = Some (Inr (), d2)"
    "textContent d2 1 = textContent d1 1"
    "innerHTML d2 1 = innerHTML d1 1"
    "input_value (elements d2 1) = input_value (elements d1 1)"
    by auto
  have "updateElements example_js ?w [Elem 1] page_markup = Some (Inr (), c1)"
    using page_markup_facts
    by (simp add: updateElement_def AVAILABLE_DIRECTIVES_def seq_def c1_def
        evaluateString_return_1_plus_1)
  with *(1) have d1: "d1 = c1" by simp
  have "updateElements example_js ?w [Elem 1] c1 = Some (Inr (), c2)"
    using a1
    by (simp add: updateElement_def AVAILABLE_DIRECTIVES_def seq_def c2_def
        evaluateString_return_1_plus_1)
  with *(2) have d2: "d2 = c2" by (simp add: d1)
  have k1: "childNodes c1 1 = [Node 100 [Text ''2'']]"
    and f1: "fresh c1 = 101" and doc1: "document c1 = [Node 1 [Node 100 [Text ''2'']]]"
    and det1: "detached c1 = [Node 2 []]"
    and p1: "parser c1 = (\<lambda>x s. [MElem blank_element [MText s]])"
    and v1: "input_value (elements c1 1) = ''2''"
    using page_markup_facts
    by (simp_all add: c1_def w_html_def set_markup_def w_text_def w_value_def tree_defs
        modify_def digits.simps)
  have k2: "childNodes c2 1 = [Node 101 [Text ''2'']]"
    using k1 f1 doc1 det1 p1
    by (simp add: c2_def w_html_def set_markup_def w_text_def w_value_def tree_defs
        modify_def digits.simps)
  have t1: "textContent c1 1 = ''2''"
    using k1 by (simp add: textContent_def)
  show ?thesis
    using * k1 k2 t1 v1 unfolding d1 d2 by blast
qed

text \<open>
  Claim C6 as it is written fails, in two ways. In
  \<open><div w-text="return typeof $c"><span w-ref="c"></span></div>\<close> the snippet has no
  effect on any page, and its result is a function of the page; yet one update leaves the
  text \<open>object\<close> and two leave \<open>undefined\<close>, because the first assignment to \<open>textContent\<close>
  removes the span that the snippet looks at. And on an element with the text directive
  \<open>return 1+1\<close>, no value and no html directive, and the update directive
  \<open>this.value += 1\<close>, one update leaves the value \<open>1\<close> and two leave \<open>11\<close>.
\<close>

theorem update_twice_differs_counterexample:
  "(\<forall>d. \<exists>v. evaluateString example_js (wUpdate_closure example_js 0) ''return typeof $c'' 1 None d
             = Some (Inr v, d))
   \<and> updateElements example_js (wUpdate_closure example_js 0) [Elem 1] page_typeof
     = Some (Inr (), w_text 1 (Str ''object'') page_typeof)
   \<and> textContent (w_text 1 (Str ''object'') page_typeof) 1 = ''object''
   \<and> updateElements example_js (wUpdate_closure example_js 0) [Elem 1, Elem 1] page_typeof
     = Some (Inr (), w_text 1 (Str ''undefined'') (w_text 1 (Str ''object'') page_typeof))
   \<and> textContent (w_text 1 (Str ''undefined'') (w_text 1 (Str ''object'') page_typeof)) 1
     = ''undefined''
   \<and> (\<forall>d. evaluateString example_js (wUpdate_closure example_js 0) ''return 1+1'' 1 None d
          = Some (Inr (Num 2), d))
   \<and> attributes (elements page_update_writes 1) ''w-text'' = Some ''return 1+1''
   \<and> attributes (elements page_update_writes 1) ''w-value'' = None
   \<and> attributes (elements page_update_writes 1) ''w-html'' = None
   \<and> (\<exists>d1 d2.
        updateElements example_js (wUpdate_closure example_js 0) [Elem 1] page_update_writes
          = Some (Inr (), d1)
        \<and> input_value (elements d1 1) = ''1''
        \<and> updateElements example_js (wUpdate_closure example_js 0) [Elem 1, Elem 1]
            page_update_writes
          = Some (Inr (), d2)
        \<and> input_value (elements d2 1) = ''11'')"
proof -
  let ?w = "wUpdate_closure example_js 0"
  have pure: "\<forall>d. \<exists>v. evaluateString example_js ?w ''return typeof $c'' 1 None d
      = Some (Inr v, d)"
    by (simp add: evaluateString_def example_js_def return_typeof_c_def)
  have facts: "document page_typeof = [Node 1 [Node 2 []]]" "detached page_typeof = []"
    "attributes (elements page_typeof 1) = map_of [(''w-text'', ''return typeof $c'')]"
    "attributes (elements page_typeof 2) = map_of [(''w-ref'', ''c'')]"
    by (simp_all add: page_typeof_def blank_page_def with_attributes_def)
  define p1 where "p1 = w_text 1 (Str ''object'') page_typeof"
  have facts1: "document p1 = [Node 1 [Text ''object'']]" "detached p1 = [Node 2 []]"
    "attributes (elements p1 1) = map_of [(''w-text'', ''return typeof $c'')]"
    using facts by (simp_all add: p1_def w_text_def tree_defs)
  have r0: "collectRefs page_typeof ''$c'' = Some 2"
    using facts
    by (simp add: collectRefs_def querySelectorAll_def matches_def collectRefs_step_def
        document_order_def)
  have r1: "collectRefs p1 ''$c'' = None"
    using facts1
    by (simp add: collectRefs_def querySelectorAll_def matches_def collectRefs_step_def
        document_order_def)
  have e0: "evaluateString example_js ?w ''return typeof $c'' 1 None page_typeof
      = Some (Inr (Str ''object''), page_typeof)"
    using r0
    by (simp add: evaluateString_def example_js_def return_typeof_c_def context_object_def)
  have e1: "evaluateString example_js ?w ''return typeof $c'' 1 None p1
      = Some (Inr (Str ''undefined''), p1)"
    using r1
    by (simp add: evaluateString_def example_js_def return_typeof_c_def context_object_def)
  have u0: "updateElement example_js ?w 1 page_typeof = Some (Inr (), p1)"
    using facts(3) e0 by (simp add: updateElement_def AVAILABLE_DIRECTIVES_def seq_def p1_def)
  have u1: "updateElement example_js ?w 1 p1 = Some (Inr (), w_text 1 (Str ''undefined'') p1)"
    using facts1(3) e1 by (simp add: updateElement_def AVAILABLE_DIRECTIVES_def seq_def)
  have once: "updateElements example_js ?w [Elem 1] page_typeof = Some (Inr (), p1)"
    and twice: "updateElements example_js ?w [Elem 1, Elem 1] page_typeof
      = Some (Inr (), w_text 1 (Str ''undefined'') p1)"
    using u0 u1 by (simp_all add: seq_def)
  have t0: "textContent p1 1 = ''object''"
    using facts1 by (simp add: textContent_def childNodes_def)
  have t1: "textContent (w_text 1 (Str ''undefined'') p1) 1 = ''undefined''"
    using facts1 by (simp add: w_text_def tree_defs)
  have wfacts: "attributes (elements page_update_writes 1)
      = map_of [(''w-update'', ''this.value += 1''), (''w-text'', ''return 1+1'')]"
    "input_value (elements page_update_writes 1) = []"
    by (simp_all add: page_update_writes_def blank_page_def with_attributes_def
        blank_element_def)
  have ev: "evaluateString example_js w ''this.value += 1'' e None d
      = Some (Inr Undefined, modify e (\<lambda>el. el\<lparr>input_value := input_value el @ ''1''\<rparr>) d)"
    for w e d
    by (simp add: evaluateString_def example_js_def value_plus_1_def)
  define q1 where "q1 = w_text 1 (Num 2)
      (modify 1 (\<lambda>el. el\<lparr>input_value := input_value el @ ''1''\<rparr>) page_update_writes)"
  define q2 where "q2 = w_text 1 (Num 2)
      (modify 1 (\<lambda>el. el\<lparr>input_value := input_value el @ ''1''\<rparr>) q1)"
  have qa: "attributes (elements q1 1)
      = map_of [(''w-update'', ''this.value += 1''), (''w-text'', ''return 1+1'')]"
    "input_value (elements q1 1) = ''1''"
    using wfacts by (simp_all add: q1_def)
  have q2v: "input_value (elements q2 1) = ''11''"
    using qa by (simp add: q2_def)
  have w0: "updateElement example_js ?w 1 page_update_writes = Some (Inr (), q1)"
    using wfacts(1)
    by (simp add: updateElement_def AVAILABLE_DIRECTIVES_def seq_def ev w_update_def
        evaluateString_return_1_plus_1 q1_def)
  have w1: "updateElement example_js ?w 1 q1 = Some (Inr (), q2)"
    using qa(1)
    by (simp add: updateElement_def AVAILABLE_DIRECTIVES_def seq_def ev w_update_def
        evaluateString_return_1_plus_1 q2_def)
  have wonce: "updateElements example_js ?w [Elem 1] page_update_writes = Some (Inr (), q1)"
    and wtwice: "updateElements example_js ?w [Elem 1, Elem 1] page_update_writes
      = Some (Inr (), q2)"
    using w0 w1 by (simp_all add: seq_def)
  have last: "\<exists>d1 d2.
        updateElements example_js ?w [Elem 1] page_update_writes = Some (Inr (), d1)
        \<and> input_value (elements d1 1) = ''1''
        \<and> updateElements example_js ?w [Elem 1, Elem 1] page_update_writes = Some (Inr (), d2)
        \<and> input_value (elements d2 1) = ''11''"
    using wonce wtwice qa(2) q2v by blast
  show ?thesis
    using pure once twice t0 t1 last wfacts(1)
    by (simp add: evaluateString_return_1_plus_1 p1_def)
qed

end
